theory Spec2Isabelle
  imports Complex_Main
begin

section \<open>Rate limiter (services/poll\_service.py, class RateLimiter)\<close>

text \<open>
  The limiter keeps, per client IP, the list of the times of the requests it admitted.
  \<^verbatim>\<open>time.time()\<close> is read once per call; the model takes that reading as the argument
  \<open>current_time\<close>. Times are real numbers, the limits are Python integers.
\<close>

record rate_limiter =
  max_requests :: int
  window_seconds :: int
  requests :: "string \<rightharpoonup> real list"

definition new_rate_limiter :: "int \<Rightarrow> int \<Rightarrow> rate_limiter" where
  "new_rate_limiter m w = \<lparr>max_requests = m, window_seconds = w, requests = Map.empty\<rparr>"

definition recorded :: "rate_limiter \<Rightarrow> string \<Rightarrow> real list" where
  "recorded rl ip_address = (case requests rl ip_address of None \<Rightarrow> [] | Some ts \<Rightarrow> ts)"

definition is_allowed :: "rate_limiter \<Rightarrow> real \<Rightarrow> string \<Rightarrow> bool \<times> rate_limiter" where
  "is_allowed rl current_time ip_address =
     (let window_start = current_time - real_of_int (window_seconds rl);
          kept = filter (\<lambda>req_time. req_time > window_start) (recorded rl ip_address)
      in if int (length kept) \<ge> max_requests rl
         then (False, rl\<lparr>requests := (requests rl)(ip_address \<mapsto> kept)\<rparr>)
         else (True, rl\<lparr>requests := (requests rl)(ip_address \<mapsto> kept @ [current_time])\<rparr>))"

text \<open>A sequence of calls, each with its clock reading and its client, in order.\<close>

fun is_allowed_seq :: "rate_limiter \<Rightarrow> (real \<times> string) list \<Rightarrow> bool list \<times> rate_limiter" where
  "is_allowed_seq rl [] = ([], rl)"
| "is_allowed_seq rl ((t, ip) # calls) =
     (let (ok, rl') = is_allowed rl t ip;
          (oks, rl'') = is_allowed_seq rl' calls
      in (ok # oks, rl''))"

text \<open>
  The admission rule in the words of the specification: the timestamps dropped are those
  older than \<open>now - window_seconds\<close>, so one recorded exactly \<open>window_seconds\<close> ago is kept.
\<close>

definition admit_spec :: "rate_limiter \<Rightarrow> real \<Rightarrow> string \<Rightarrow> bool \<times> rate_limiter" where
  "admit_spec rl now identity =
     (let kept = filter (\<lambda>t. \<not> t < now - real_of_int (window_seconds rl)) (recorded rl identity)
      in if int (length kept) \<ge> max_requests rl
         then (False, rl\<lparr>requests := (requests rl)(identity \<mapsto> kept)\<rparr>)
         else (True, rl\<lparr>requests := (requests rl)(identity \<mapsto> kept @ [now])\<rparr>))"

fun admit_spec_seq :: "rate_limiter \<Rightarrow> (real \<times> string) list \<Rightarrow> bool list \<times> rate_limiter" where
  "admit_spec_seq rl [] = ([], rl)"
| "admit_spec_seq rl ((t, ip) # calls) =
     (let (ok, rl') = admit_spec rl t ip;
          (oks, rl'') = admit_spec_seq rl' calls
      in (ok # oks, rl''))"

section \<open>Python strings and values\<close>

text \<open>
  A Python \<^verbatim>\<open>str\<close> is modelled as a list of characters with code points below 256.
  \<^verbatim>\<open>str.strip()\<close> removes leading and trailing white space; the white-space characters
  in that range are tab, line feed, vertical tab, form feed, carriage return, the four
  separators 0x1C to 0x1F, space, 0x85 and 0xA0.
\<close>

definition py_isspace :: "char \<Rightarrow> bool" where
  "py_isspace c \<longleftrightarrow> c \<in> set [CHR 0x09, CHR 0x0A, CHR 0x0B, CHR 0x0C, CHR 0x0D,
                            CHR 0x1C, CHR 0x1D, CHR 0x1E, CHR 0x1F, CHR 0x20, CHR 0x85, CHR 0xA0]"

definition strip :: "string \<Rightarrow> string" where
  "strip s = rev (dropWhile py_isspace (rev (dropWhile py_isspace s)))"

text \<open>
  \<^verbatim>\<open>str.upper()\<close> on ASCII text, which is what poll codes are (upper-case hexadecimal
  when generated); other characters are left as they are.
\<close>

definition upper_char :: "char \<Rightarrow> char" where
  "upper_char c = (case map_of (zip ''abcdefghijklmnopqrstuvwxyz'' ''ABCDEFGHIJKLMNOPQRSTUVWXYZ'') c of
                     None \<Rightarrow> c | Some u \<Rightarrow> u)"

definition upper :: "string \<Rightarrow> string" where
  "upper s = map upper_char s"

text \<open>Decimal text of an integer, as an f-string interpolates it.\<close>

fun str_nat :: "nat \<Rightarrow> string" where
  "str_nat n = (if n < 10 then [''0123456789'' ! n]
                else str_nat (n div 10) @ [''0123456789'' ! (n mod 10)])"

declare str_nat.simps [simp del]

definition str_int :: "int \<Rightarrow> string" where
  "str_int i = (if i < 0 then CHR ''-'' # str_nat (nat (- i)) else str_nat (nat i))"

text \<open>
  JSON-like values: what \<^verbatim>\<open>to_dict\<close>, \<^verbatim>\<open>get_results\<close> and \<^verbatim>\<open>jsonify\<close> build. A
  dictionary is the list of its items in insertion order. A float is represented by the
  real number it denotes.
\<close>

datatype json =
    JNull
  | JBool bool
  | JInt int
  | JFloat real
  | JStr string
  | JList "json list"
  | JDict "(string \<times> json) list"

fun dict_keys :: "json \<Rightarrow> string list" where
  "dict_keys (JDict items) = map fst items"
| "dict_keys _ = []"

fun dict_get :: "json \<Rightarrow> string \<Rightarrow> json option" where
  "dict_get (JDict items) k = map_of items k"
| "dict_get _ k = None"

text \<open>
  The floating-point operations of the Python runtime that \<^verbatim>\<open>get_results\<close> uses, taken as
  parameters: true division of two integers, multiplication of a float by an integer, and
  \<^verbatim>\<open>round(x, ndigits)\<close> on a float.
\<close>

record float_ops =
  truediv :: "int \<Rightarrow> int \<Rightarrow> real"
  fmul :: "real \<Rightarrow> int \<Rightarrow> real"
  fround :: "real \<Rightarrow> int \<Rightarrow> real"

datatype pynum = PyInt int | PyFloat real

text \<open>\<^verbatim>\<open>round(v, ndigits)\<close> with \<open>ndigits \<ge> 0\<close>: an integer is returned as it is.\<close>

fun py_round :: "float_ops \<Rightarrow> pynum \<Rightarrow> int \<Rightarrow> json" where
  "py_round fl (PyInt i) ndigits = JInt i"
| "py_round fl (PyFloat x) ndigits = JFloat (fround fl x ndigits)"

section \<open>Tables (models.py)\<close>

text \<open>
  A \<^verbatim>\<open>datetime\<close> is represented by its \<^verbatim>\<open>isoformat()\<close> text; the code does nothing
  else with one.
\<close>

type_synonym datetime = string

record poll =
  p_id :: int
  question :: string
  poll_code :: string
  created_at :: datetime

record option_row =
  o_id :: int
  o_poll_id :: int
  option_text :: string
  vote_count :: int

record vote =
  v_id :: int
  v_poll_id :: int
  v_option_id :: int
  ip_address :: string
  browser_token :: string
  timestamp :: datetime

text \<open>The three tables, each the list of its rows in insertion order.\<close>

record db =
  polls :: "poll list"
  options :: "option_row list"
  votes :: "vote list"

definition empty_db :: db where
  "empty_db = \<lparr>polls = [], options = [], votes = []\<rparr>"

section \<open>The storage layer\<close>

text \<open>
  The database engine is a library. Its behaviour on the tables that models.py declares is
  modelled here: an integer primary key is assigned one more than the largest key in the
  table, a commit that would break a declared \<^verbatim>\<open>unique\<close> constraint raises
  \<^verbatim>\<open>IntegrityError\<close> and leaves the tables as they were, and any other exception the
  engine may raise during a transaction is \<open>OperationalError\<close>, chosen by the flag
  \<open>fault\<close>.
\<close>

datatype db_error = IntegrityError | OperationalError

definition next_id :: "int list \<Rightarrow> int" where
  "next_id ids = fold max ids 0 + 1"

text \<open>\<^verbatim>\<open>query(Poll).filter_by(poll_code=code).first()\<close>\<close>

definition get_poll_by_code :: "db \<Rightarrow> string \<Rightarrow> poll option" where
  "get_poll_by_code d code = find (\<lambda>p. poll_code p = code) (polls d)"

text \<open>The relationship \<^verbatim>\<open>Poll.options\<close>, declared with \<^verbatim>\<open>order_by='Option.id'\<close>.\<close>

definition poll_options :: "db \<Rightarrow> poll \<Rightarrow> option_row list" where
  "poll_options d p = sort_key o_id (filter (\<lambda>opt. o_poll_id opt = p_id p) (options d))"

text \<open>
  Committing a new \<^verbatim>\<open>Poll\<close> with the \<^verbatim>\<open>Option\<close> objects appended to it: one
  transaction, subject to \<^verbatim>\<open>unique=True\<close> on \<^verbatim>\<open>polls.poll_code\<close>.
\<close>

definition new_option_rows :: "int \<Rightarrow> int \<Rightarrow> string list \<Rightarrow> option_row list" where
  "new_option_rows first pid texts =
     map (\<lambda>(i, t). \<lparr>o_id = first + int i, o_poll_id = pid, option_text = t, vote_count = 0\<rparr>)
         (enumerate 0 texts)"

definition commit_poll ::
  "db \<Rightarrow> bool \<Rightarrow> string \<Rightarrow> string \<Rightarrow> string list \<Rightarrow> datetime \<Rightarrow> db_error + (poll \<times> db)" where
  "commit_poll d fault q code texts now =
     (if fault then Inl OperationalError
      else if code \<in> set (map poll_code (polls d)) then Inl IntegrityError
      else let p = \<lparr>p_id = next_id (map p_id (polls d)), question = q, poll_code = code,
                     created_at = now\<rparr>;
               new_options = new_option_rows (next_id (map o_id (options d))) (p_id p) texts
           in Inr (p, d\<lparr>polls := polls d @ [p], options := options d @ new_options\<rparr>))"

text \<open>
  \<^verbatim>\<open>UPDATE options SET vote_count = vote_count + 1 WHERE id = :option_id\<close>, evaluated
  by the engine.
\<close>

definition execute_increment :: "db \<Rightarrow> int \<Rightarrow> db" where
  "execute_increment d option_id =
     d\<lparr>options := map (\<lambda>opt. if o_id opt = option_id
                                then opt\<lparr>vote_count := vote_count opt + 1\<rparr> else opt)
                       (options d)\<rparr>"

text \<open>
  The insert of a \<^verbatim>\<open>Vote\<close> row, subject to the constraints \<^verbatim>\<open>uq_vote_poll_ip\<close> and
  \<^verbatim>\<open>uq_vote_poll_token\<close> of \<^verbatim>\<open>Vote.__table_args__\<close>.
\<close>

definition new_vote_row :: "db \<Rightarrow> int \<Rightarrow> int \<Rightarrow> string \<Rightarrow> string \<Rightarrow> datetime \<Rightarrow> vote" where
  "new_vote_row d pid oid ip tok now =
     \<lparr>v_id = next_id (map v_id (votes d)), v_poll_id = pid, v_option_id = oid,
      ip_address = ip, browser_token = tok, timestamp = now\<rparr>"

definition insert_vote ::
  "db \<Rightarrow> int \<Rightarrow> int \<Rightarrow> string \<Rightarrow> string \<Rightarrow> datetime \<Rightarrow> db_error + db" where
  "insert_vote d pid oid ip tok now =
     (if \<exists>v \<in> set (votes d). v_poll_id v = pid \<and> ip_address v = ip then Inl IntegrityError
      else if \<exists>v \<in> set (votes d). v_poll_id v = pid \<and> browser_token v = tok then Inl IntegrityError
      else Inr (d\<lparr>votes := votes d @ [new_vote_row d pid oid ip tok now]\<rparr>))"

section \<open>models.py: to\_dict\<close>

definition option_to_dict :: "option_row \<Rightarrow> json" where
  "option_to_dict opt =
     JDict [(''id'', JInt (o_id opt)), (''poll_id'', JInt (o_poll_id opt)),
            (''option_text'', JStr (option_text opt)), (''vote_count'', JInt (vote_count opt))]"

definition poll_to_dict :: "db \<Rightarrow> poll \<Rightarrow> json" where
  "poll_to_dict d p =
     JDict [(''id'', JInt (p_id p)), (''question'', JStr (question p)),
            (''poll_code'', JStr (poll_code p)), (''created_at'', JStr (created_at p)),
            (''total_votes'', JInt (sum_list (map vote_count (poll_options d p)))),
            (''options'', JList (map option_to_dict (poll_options d p)))]"

section \<open>The poll service (services/poll\_service.py, class PollService)\<close>

text \<open>
  The exceptions a service call can end with. \<open>UncaughtStorageError\<close> stands for an
  exception of the storage layer that the service does not catch.
\<close>

datatype error =
    ValidationError string
  | DuplicateVoteError string
  | PollNotFoundError string
  | RateLimitError string
  | PollServiceError string
  | UncaughtStorageError

text \<open>
  \<^verbatim>\<open>_generate_unique_poll_code\<close>. \<^verbatim>\<open>generate_poll_code(8)\<close> draws a random code; the
  model takes the sequence of the codes that successive draws return as the argument
  \<open>codes\<close>. The loop makes at most \<open>max_attempts\<close> draws, and returns the code together
  with the number of draws made.
\<close>

fun generate_loop :: "db \<Rightarrow> (nat \<Rightarrow> string) \<Rightarrow> nat \<Rightarrow> nat \<Rightarrow> error + (string \<times> nat)" where
  "generate_loop d codes k 0 = Inl (ValidationError ''Unable to generate unique poll code'')"
| "generate_loop d codes k (Suc attempts_left) =
     (let code = codes k
      in case get_poll_by_code d code of
           None \<Rightarrow> Inr (code, Suc k)
         | Some existing \<Rightarrow> generate_loop d codes (Suc k) attempts_left)"

definition max_attempts :: nat where
  "max_attempts = 10"

definition generate_unique_poll_code :: "db \<Rightarrow> (nat \<Rightarrow> string) \<Rightarrow> error + (string \<times> nat)" where
  "generate_unique_poll_code d codes = generate_loop d codes 0 max_attempts"

text \<open>The loop of \<^verbatim>\<open>create_poll\<close> that trims and checks each option, in order.\<close>

fun clean_loop :: "string list \<Rightarrow> string list \<Rightarrow> int \<Rightarrow> error + string list" where
  "clean_loop cleaned_options [] max_option_length = Inr cleaned_options"
| "clean_loop cleaned_options (opt # rest) max_option_length =
     (let opt' = strip opt
      in if opt' = [] then Inl (ValidationError ''Options cannot be empty'')
         else if int (length opt') > max_option_length
         then Inl (ValidationError (''Each option must be '' @ str_int max_option_length
                                      @ '' characters or less''))
         else clean_loop (cleaned_options @ [opt']) rest max_option_length)"

text \<open>
  \<^verbatim>\<open>create_poll\<close>. On \<^verbatim>\<open>IntegrityError\<close> the method calls itself with the trimmed
  question, the original options, the two option-count limits and the default length
  limits; the retry goes on drawing from the same sequence of codes.
\<close>

function create_poll ::
  "db \<Rightarrow> (nat \<Rightarrow> string) \<Rightarrow> bool \<Rightarrow> datetime \<Rightarrow> string \<Rightarrow> string list \<Rightarrow> int \<Rightarrow> int \<Rightarrow> int \<Rightarrow> int
   \<Rightarrow> (error + poll) \<times> db" where
  "create_poll d codes fault now q option_texts min_options max_options
               max_question_length max_option_length =
     (if q = [] \<or> strip q = [] then (Inl (ValidationError ''Question is required''), d)
      else if int (length (strip q)) > max_question_length
      then (Inl (ValidationError (''Question must be '' @ str_int max_question_length
                                    @ '' characters or less'')), d)
      else if option_texts = [] \<or> int (length option_texts) < min_options
      then (Inl (ValidationError (''At least '' @ str_int min_options
                                    @ '' options are required'')), d)
      else if int (length option_texts) > max_options
      then (Inl (ValidationError (''Maximum '' @ str_int max_options @ '' options allowed'')), d)
      else case clean_loop [] option_texts max_option_length of
             Inl e \<Rightarrow> (Inl e, d)
           | Inr cleaned_options \<Rightarrow>
               if length cleaned_options \<noteq> card (set cleaned_options)
               then (Inl (ValidationError ''Options must be unique''), d)
               else case generate_unique_poll_code d codes of
                      Inl e \<Rightarrow> (Inl e, d)
                    | Inr (code, draws) \<Rightarrow>
                        (case commit_poll d fault (strip q) code cleaned_options now of
                           Inr (p, d') \<Rightarrow> (Inr p, d')
                         | Inl IntegrityError \<Rightarrow>
                             create_poll d (\<lambda>i. codes (draws + i)) fault now (strip q) option_texts
                                         min_options max_options 500 200
                         | Inl OperationalError \<Rightarrow> (Inl UncaughtStorageError, d)))"
  by pat_completeness auto
termination
proof (relation "{}")
  show "wf {}" by simp
next
  fix d :: db and codes :: "nat \<Rightarrow> string" and fault :: bool and now :: datetime
    and q :: string and cleaned :: "string list" and code :: string and draws :: nat
    and x :: "string \<times> nat" and e :: db_error and retry
  assume gen: "generate_unique_poll_code d codes = Inr x" and x: "(code, draws) = x"
    and commit: "commit_poll d fault (strip q) code cleaned now = Inl e" and e: "e = IntegrityError"
  have free: "generate_loop d cs k n = Inr (c, m) \<Longrightarrow> get_poll_by_code d c = None" for cs k n c m
    by (induction n arbitrary: k) (auto simp: Let_def split: option.splits)
  from gen x have "get_poll_by_code d code = None"
    using free by (auto simp: generate_unique_poll_code_def)
  then have "code \<notin> set (map poll_code (polls d))"
    by (auto simp: get_poll_by_code_def find_None_iff)
  with commit e have False
    by (auto simp: commit_poll_def Let_def split: if_splits)
  then show "(retry, d, codes, fault, now, q, option_texts, min_options, max_options,
               max_question_length, max_option_length) \<in> {}"
    for option_texts min_options max_options max_question_length max_option_length
    by simp
qed

declare create_poll.simps [simp del]

text \<open>
  \<^verbatim>\<open>submit_vote\<close>, the \<^verbatim>\<open>try\<close> block: the relative update, the vote insert and the commit
  are one transaction. An \<^verbatim>\<open>IntegrityError\<close> or any other exception rolls it back.
\<close>

definition submit_vote_write ::
  "db \<Rightarrow> bool \<Rightarrow> datetime \<Rightarrow> poll \<Rightarrow> int \<Rightarrow> string \<Rightarrow> string \<Rightarrow> (error + json) \<times> db" where
  "submit_vote_write d fault now p option_id ip tok =
     (if fault then (Inl (PollServiceError ''Failed to submit vote''), d)
      else case insert_vote (execute_increment d option_id) (p_id p) option_id ip tok now of
             Inl IntegrityError \<Rightarrow> (Inl (DuplicateVoteError ''You have already voted''), d)
           | Inl OperationalError \<Rightarrow> (Inl (PollServiceError ''Failed to submit vote''), d)
           | Inr d' \<Rightarrow>
               (Inr (JDict [(''success'', JBool True), (''poll'', poll_to_dict d' p),
                            (''voted_option_id'', JInt option_id)]), d'))"

text \<open>\<^verbatim>\<open>submit_vote\<close>: the lookups and the two duplicate checks, then the transaction.\<close>

definition submit_vote ::
  "db \<Rightarrow> bool \<Rightarrow> datetime \<Rightarrow> string \<Rightarrow> int \<Rightarrow> string \<Rightarrow> string \<Rightarrow> (error + json) \<times> db" where
  "submit_vote d fault now code option_id ip tok =
     (case get_poll_by_code d code of
        None \<Rightarrow> (Inl (PollNotFoundError ''Poll not found''), d)
      | Some p \<Rightarrow>
          (case find (\<lambda>opt. o_id opt = option_id \<and> o_poll_id opt = p_id p) (options d) of
             None \<Rightarrow> (Inl (ValidationError ''Invalid option selected''), d)
           | Some opt \<Rightarrow>
               (case find (\<lambda>v. v_poll_id v = p_id p \<and> ip_address v = ip) (votes d) of
                  Some existing_vote \<Rightarrow>
                    (Inl (DuplicateVoteError ''You have already voted from this IP address''), d)
                | None \<Rightarrow>
                    (case find (\<lambda>v. v_poll_id v = p_id p \<and> browser_token v = tok) (votes d) of
                       Some existing_token_vote \<Rightarrow>
                         (Inl (DuplicateVoteError ''You have already voted''), d)
                     | None \<Rightarrow> submit_vote_write d fault now p option_id ip tok))))"

text \<open>
  \<^verbatim>\<open>get_results\<close>. The column \<^verbatim>\<open>created_at\<close> is declared \<^verbatim>\<open>nullable=False\<close> with a
  default, so a stored poll has one and the results carry its \<^verbatim>\<open>isoformat()\<close> text.
\<close>

definition percentage :: "float_ops \<Rightarrow> int \<Rightarrow> option_row \<Rightarrow> pynum" where
  "percentage fl total_votes opt =
     (if total_votes > 0 then PyFloat (fmul fl (truediv fl (vote_count opt) total_votes) 100)
      else PyInt 0)"

definition option_data :: "float_ops \<Rightarrow> int \<Rightarrow> option_row \<Rightarrow> json" where
  "option_data fl total_votes opt =
     JDict [(''id'', JInt (o_id opt)), (''option_text'', JStr (option_text opt)),
            (''vote_count'', JInt (vote_count opt)),
            (''percentage'', py_round fl (percentage fl total_votes opt) 1)]"

definition get_results :: "float_ops \<Rightarrow> db \<Rightarrow> string \<Rightarrow> error + json" where
  "get_results fl d code =
     (case get_poll_by_code d code of
        None \<Rightarrow> Inl (PollNotFoundError ''Poll not found'')
      | Some p \<Rightarrow>
          (let total_votes = sum_list (map vote_count (poll_options d p));
               options_data = map (option_data fl total_votes) (poll_options d p)
           in Inr (JDict [(''poll_code'', JStr code), (''question'', JStr (question p)),
                          (''total_votes'', JInt total_votes), (''options'', JList options_data),
                          (''created_at'', JStr (created_at p))])))"

section \<open>Reachable ledger states\<close>

text \<open>
  The states of the tables that calls of \<^verbatim>\<open>create_poll\<close> and \<^verbatim>\<open>submit_vote\<close>, one
  after the other and with any arguments, lead to from the empty tables.
\<close>

inductive reachable :: "db \<Rightarrow> bool" where
  init: "reachable empty_db"
| create: "reachable d \<Longrightarrow>
           create_poll d codes fault now q option_texts mn mx mq mo = (r, d') \<Longrightarrow> reachable d'"
| vote: "reachable d \<Longrightarrow> submit_vote d fault now code option_id ip tok = (r, d') \<Longrightarrow> reachable d'"

text \<open>The invariants of the ledger.\<close>

definition votes_unique :: "db \<Rightarrow> bool" where
  "votes_unique d \<longleftrightarrow>
     distinct (map (\<lambda>v. (v_poll_id v, ip_address v)) (votes d)) \<and>
     distinct (map (\<lambda>v. (v_poll_id v, browser_token v)) (votes d))"

definition tally :: "db \<Rightarrow> int \<Rightarrow> bool" where
  "tally d pid \<longleftrightarrow>
     sum_list (map vote_count (filter (\<lambda>opt. o_poll_id opt = pid) (options d)))
       = int (length (filter (\<lambda>v. v_poll_id v = pid) (votes d)))"

text \<open>
  Option ids increase down the table, poll ids and poll codes are distinct, and every
  option and every vote refers to an existing poll.
\<close>

definition keys_ok :: "db \<Rightarrow> bool" where
  "keys_ok d \<longleftrightarrow>
     sorted_wrt (<) (map o_id (options d)) \<and>
     distinct (map p_id (polls d)) \<and>
     distinct (map poll_code (polls d)) \<and>
     (\<forall>opt \<in> set (options d). o_poll_id opt \<in> set (map p_id (polls d))) \<and>
     (\<forall>v \<in> set (votes d). v_poll_id v \<in> set (map p_id (polls d)))"

section \<open>The HTTP handlers (app.py)\<close>

text \<open>config.py, class Config\<close>

definition MIN_OPTIONS :: int where "MIN_OPTIONS = 2"
definition MAX_OPTIONS :: int where "MAX_OPTIONS = 10"
definition MAX_QUESTION_LENGTH :: int where "MAX_QUESTION_LENGTH = 500"
definition MAX_OPTION_LENGTH :: int where "MAX_OPTION_LENGTH = 200"

text \<open>The state the handlers share: the tables and the process-wide rate limiter.\<close>

record app_state =
  ledger :: db
  limiter :: rate_limiter

text \<open>
  What a request finds in its environment: the reading of \<^verbatim>\<open>time.time()\<close>, the reading of
  \<^verbatim>\<open>datetime.utcnow()\<close>, the token \<^verbatim>\<open>generate_browser_token()\<close> would return, the codes
  \<^verbatim>\<open>generate_poll_code\<close> would return, and whether the storage layer fails.
\<close>

record environment =
  clock :: real
  utcnow :: datetime
  fresh_token :: string
  fresh_codes :: "nat \<Rightarrow> string"
  storage_fault :: bool

text \<open>\<^verbatim>\<open>request.remote_addr or '127.0.0.1'\<close>\<close>

definition client_ip :: "string option \<Rightarrow> string" where
  "client_ip remote_addr =
     (case remote_addr of None \<Rightarrow> ''127.0.0.1'' | Some a \<Rightarrow> if a = [] then ''127.0.0.1'' else a)"

text \<open>
  The route \<^verbatim>\<open>POST /poll/<poll_code>/vote\<close>. The JSON body either has an integer
  \<^verbatim>\<open>option_id\<close> or none; bodies with an \<^verbatim>\<open>option_id\<close> of another JSON type are not modelled.
\<close>

record vote_request =
  vr_remote_addr :: "string option"
  vr_cookie :: "string option"
  vr_poll_code :: string
  vr_option_id :: "int option"

record vote_response =
  body :: json
  status :: int
  set_cookie :: "(string \<times> string) option"

text \<open>An emitted socket event: its name, its payload and its room.\<close>

type_synonym emitted = "string \<times> json \<times> string"

definition error_response :: "error \<Rightarrow> vote_response" where
  "error_response e =
     (case e of
        PollNotFoundError m \<Rightarrow>
          \<lparr>body = JDict [(''success'', JBool False), (''error'', JStr ''Poll not found'')],
           status = 404, set_cookie = None\<rparr>
      | ValidationError m \<Rightarrow>
          \<lparr>body = JDict [(''success'', JBool False), (''error'', JStr m)],
           status = 400, set_cookie = None\<rparr>
      | DuplicateVoteError m \<Rightarrow>
          \<lparr>body = JDict [(''success'', JBool False), (''error'', JStr m),
                         (''already_voted'', JBool True)],
           status = 409, set_cookie = None\<rparr>
      | _ \<Rightarrow>
          \<lparr>body = JDict [(''success'', JBool False), (''error'', JStr ''Failed to submit vote'')],
           status = 500, set_cookie = None\<rparr>)"

definition submit_vote_route ::
  "float_ops \<Rightarrow> app_state \<Rightarrow> environment \<Rightarrow> vote_request
   \<Rightarrow> vote_response \<times> emitted list \<times> app_state" where
  "submit_vote_route fl st env req =
     (let ip = client_ip (vr_remote_addr req);
          tok = (case vr_cookie req of None \<Rightarrow> fresh_token env
                 | Some t \<Rightarrow> if t = [] then fresh_token env else t)
      in case vr_option_id req of
           None \<Rightarrow>
             (\<lparr>body = JDict [(''success'', JBool False), (''error'', JStr ''Please select an option'')],
               status = 400, set_cookie = None\<rparr>, [], st)
         | Some option_id \<Rightarrow>
             if option_id = 0
             then (\<lparr>body = JDict [(''success'', JBool False),
                                   (''error'', JStr ''Please select an option'')],
                     status = 400, set_cookie = None\<rparr>, [], st)
             else
               (let (allowed, rl') = is_allowed (limiter st) (clock env) ip;
                    st' = st\<lparr>limiter := rl'\<rparr>
                in if \<not> allowed
                   then (\<lparr>body = JDict [(''success'', JBool False),
                                         (''error'', JStr ''Too many requests. Please try again later.''),
                                         (''rate_limited'', JBool True)],
                           status = 429, set_cookie = None\<rparr>, [], st')
                   else
                     (case submit_vote (ledger st) (storage_fault env) (utcnow env)
                                       (upper (vr_poll_code req)) option_id ip tok of
                        (Inl e, d') \<Rightarrow> (error_response e, [], st'\<lparr>ledger := d'\<rparr>)
                      | (Inr result, d') \<Rightarrow>
                          (case get_results fl d' (upper (vr_poll_code req)) of
                             Inl e \<Rightarrow> (error_response e, [], st'\<lparr>ledger := d'\<rparr>)
                           | Inr poll_results \<Rightarrow>
                               (\<lparr>body = JDict [(''success'', JBool True), (''results'', poll_results)],
                                 status = 200,
                                 set_cookie = (case vr_cookie req of
                                                 None \<Rightarrow> Some (''browser_token'', tok)
                                               | Some t \<Rightarrow> None)\<rparr>,
                                [(''vote_update'', poll_results, upper (vr_poll_code req))],
                                st'\<lparr>ledger := d'\<rparr>)))))"

text \<open>
  The route \<^verbatim>\<open>POST /create\<close>. The form is the list of its fields; iterating over it
  yields each key once, in the order of first appearance, and \<^verbatim>\<open>form.get\<close> returns the
  first value of a key.
\<close>

record create_request =
  cr_remote_addr :: "string option"
  cr_form :: "(string \<times> string) list"

datatype page =
    Redirect string
  | Rendered string (flashed: "(string \<times> string) list") (ctx_question: "string option")
             (ctx_options: "string list option")

definition form_keys :: "(string \<times> string) list \<Rightarrow> string list" where
  "form_keys form = rev (remdups (rev (map fst form)))"

definition form_get :: "(string \<times> string) list \<Rightarrow> string \<Rightarrow> string" where
  "form_get form k = (case map_of form k of None \<Rightarrow> [] | Some v \<Rightarrow> v)"

definition form_options :: "(string \<times> string) list \<Rightarrow> string list" where
  "form_options form =
     filter (\<lambda>v. v \<noteq> [])
       (map (\<lambda>k. strip (form_get form k)) (filter (\<lambda>k. take 7 k = ''option_'') (form_keys form)))"

definition create_poll_route :: "app_state \<Rightarrow> environment \<Rightarrow> create_request \<Rightarrow> page \<times> app_state" where
  "create_poll_route st env req =
     (let ip = client_ip (cr_remote_addr req);
          (allowed, rl') = is_allowed (limiter st) (clock env) ip;
          st' = st\<lparr>limiter := rl'\<rparr>
      in if \<not> allowed
         then (Rendered ''create_poll.html''
                 [(''Too many requests. Please try again later.'', ''error'')] None None, st')
         else
           (let q = strip (form_get (cr_form req) ''question'');
                option_texts = form_options (cr_form req)
            in case create_poll (ledger st) (fresh_codes env) (storage_fault env) (utcnow env)
                                q option_texts MIN_OPTIONS MAX_OPTIONS MAX_QUESTION_LENGTH
                                MAX_OPTION_LENGTH of
                 (Inr p, d') \<Rightarrow>
                   (Redirect (''/poll/'' @ poll_code p @ ''/share''), st'\<lparr>ledger := d'\<rparr>)
               | (Inl (ValidationError m), d') \<Rightarrow>
                   (Rendered ''create_poll.html'' [(m, ''error'')] (Some q) (Some option_texts),
                    st'\<lparr>ledger := d'\<rparr>)
               | (Inl e, d') \<Rightarrow>
                   (Rendered ''create_poll.html''
                      [(''An error occurred. Please try again.'', ''error'')] None None,
                    st'\<lparr>ledger := d'\<rparr>)))"

section \<open>A worked example\<close>

text \<open>
  The poll "Pick one" with the options A and B, as created on the empty tables, and the
  tables after one vote for A. The code generator returns the same code at every draw.
\<close>

definition demo_codes :: "nat \<Rightarrow> string" where "demo_codes i = ''1A2B3C4D''"

definition demo_time :: datetime where "demo_time = ''2024-01-01T00:00:00''"

definition demo_poll :: poll where
  "demo_poll = \<lparr>p_id = 1, question = ''Pick one'', poll_code = ''1A2B3C4D'', created_at = demo_time\<rparr>"

definition ledger_created :: db where
  "ledger_created =
     \<lparr>polls = [demo_poll],
      options = [\<lparr>o_id = 1, o_poll_id = 1, option_text = ''A'', vote_count = 0\<rparr>,
                 \<lparr>o_id = 2, o_poll_id = 1, option_text = ''B'', vote_count = 0\<rparr>],
      votes = []\<rparr>"

definition ledger_voted :: db where
  "ledger_voted =
     \<lparr>polls = [demo_poll],
      options = [\<lparr>o_id = 1, o_poll_id = 1, option_text = ''A'', vote_count = 1\<rparr>,
                 \<lparr>o_id = 2, o_poll_id = 1, option_text = ''B'', vote_count = 0\<rparr>],
      votes = [\<lparr>v_id = 1, v_poll_id = 1, v_option_id = 1, ip_address = ''10.0.0.1'',
                 browser_token = ''token-x'', timestamp = demo_time\<rparr>]\<rparr>"

text \<open>A request to create a second poll, while the code generator keeps returning the code in use.\<close>

definition demo_state :: app_state where
  "demo_state = \<lparr>ledger = ledger_created, limiter = new_rate_limiter 10 60\<rparr>"

definition demo_env :: environment where
  "demo_env = \<lparr>clock = 0, utcnow = demo_time, fresh_token = ''token-new'',
               fresh_codes = demo_codes, storage_fault = False\<rparr>"

definition demo_create_request :: create_request where
  "demo_create_request =
     \<lparr>cr_remote_addr = Some ''10.0.0.7'',
      cr_form = [(''question'', ''Another''), (''option_1'', ''X''), (''option_2'', ''Y'')]\<rparr>"

text \<open>
  An instance of the float operations to run the model with: exact arithmetic, rounding
  to the nearest multiple of one tenth to the power \<open>ndigits\<close>. A ledger with one vote on each of three options.
\<close>

definition decimal_ops :: float_ops where
  "decimal_ops =
     \<lparr>truediv = (\<lambda>a b. real_of_int a / real_of_int b),
      fmul = (\<lambda>x i. x * real_of_int i),
      fround = (\<lambda>x n. real_of_int (round (x * 10 ^ nat n)) / 10 ^ nat n)\<rparr>"

definition ledger_thirds :: db where
  "ledger_thirds =
     \<lparr>polls = [demo_poll],
      options = [\<lparr>o_id = 1, o_poll_id = 1, option_text = ''A'', vote_count = 1\<rparr>,
                 \<lparr>o_id = 2, o_poll_id = 1, option_text = ''B'', vote_count = 1\<rparr>,
                 \<lparr>o_id = 3, o_poll_id = 1, option_text = ''C'', vote_count = 1\<rparr>],
      votes = []\<rparr>"

text \<open>The vote for A as a request, with the poll code in lower case.\<close>

definition demo_vote_request :: vote_request where
  "demo_vote_request =
     \<lparr>vr_remote_addr = Some ''10.0.0.1'', vr_cookie = Some ''token-x'',
      vr_poll_code = ''1a2b3c4d'', vr_option_id = Some 1\<rparr>"

section \<open>Identifiers, code generation and option cleaning\<close>

lemma fold_max_ge: "a \<le> fold max ids (a::int)"
  by (induction ids arbitrary: a) (auto intro: order_trans [OF max.cobounded2])

lemma fold_max_mem: "i \<in> set ids \<Longrightarrow> i \<le> fold max ids (a::int)"
proof (induction ids arbitrary: a)
  case Nil then show ?case by simp
next
  case (Cons x xs)
  show ?case
  proof (cases "i = x")
    case True
    have "x \<le> max x a" by simp
    also have "\<dots> \<le> fold max xs (max x a)" by (rule fold_max_ge)
    finally show ?thesis using True by simp
  next
    case False
    with Cons show ?thesis by simp
  qed
qed

lemma next_id_fresh: "i \<in> set ids \<Longrightarrow> i < next_id ids"
  using fold_max_mem [of i ids 0] by (simp add: next_id_def)

lemma next_id_pos: "0 < next_id ids"
  using fold_max_ge [of 0 ids] by (simp add: next_id_def)

lemma generate_loop_Inr:
  "generate_loop d codes k n = Inr (c, m) \<Longrightarrow>
     \<exists>i<n. c = codes (k + i) \<and> m = Suc (k + i) \<and> get_poll_by_code d c = None
           \<and> (\<forall>j<i. get_poll_by_code d (codes (k + j)) \<noteq> None)"
proof (induction n arbitrary: k)
  case 0 then show ?case by simp
next
  case (Suc n)
  show ?case
  proof (cases "get_poll_by_code d (codes k)")
    case None
    with Suc.prems show ?thesis by (intro exI [of _ 0]) (auto simp: Let_def)
  next
    case (Some ex)
    with Suc.prems have "generate_loop d codes (Suc k) n = Inr (c, m)" by (simp add: Let_def)
    from Suc.IH [OF this] obtain i where i: "i < n" "c = codes (Suc k + i)" "m = Suc (Suc k + i)"
      "get_poll_by_code d c = None" "\<forall>j<i. get_poll_by_code d (codes (Suc k + j)) \<noteq> None" by blast
    have "\<forall>j<Suc i. get_poll_by_code d (codes (k + j)) \<noteq> None"
    proof (intro allI impI)
      fix j assume "j < Suc i"
      then show "get_poll_by_code d (codes (k + j)) \<noteq> None"
        using i(5) Some by (cases j) auto
    qed
    with i show ?thesis by (intro exI [of _ "Suc i"]) auto
  qed
qed

lemma generate_loop_all_taken:
  "(\<forall>i<n. get_poll_by_code d (codes (k + i)) \<noteq> None) \<Longrightarrow>
     generate_loop d codes k n = Inl (ValidationError ''Unable to generate unique poll code'')"
proof (induction n arbitrary: k)
  case 0 then show ?case by simp
next
  case (Suc n)
  from Suc.prems have "get_poll_by_code d (codes k) \<noteq> None" by (metis add.right_neutral zero_less_Suc)
  moreover have "\<forall>i<n. get_poll_by_code d (codes (Suc k + i)) \<noteq> None"
    using Suc.prems by (metis Suc_less_eq add_Suc_shift)
  ultimately show ?case using Suc.IH by (auto simp: Let_def)
qed

lemma generate_loop_first_free:
  "i < n \<Longrightarrow> get_poll_by_code d (codes (k + i)) = None \<Longrightarrow>
   (\<forall>j<i. get_poll_by_code d (codes (k + j)) \<noteq> None) \<Longrightarrow>
     generate_loop d codes k n = Inr (codes (k + i), Suc (k + i))"
proof (induction n arbitrary: k i)
  case 0 then show ?case by simp
next
  case (Suc n)
  show ?case
  proof (cases i)
    case 0
    with Suc.prems show ?thesis by (simp add: Let_def)
  next
    case (Suc i')
    with Suc.prems have taken: "get_poll_by_code d (codes k) \<noteq> None" by (metis add.right_neutral zero_less_Suc)
    have "generate_loop d codes (Suc k) n = Inr (codes (Suc k + i'), Suc (Suc k + i'))"
    proof (rule Suc.IH)
      show "i' < n" using Suc Suc.prems by simp
      show "get_poll_by_code d (codes (Suc k + i')) = None" using Suc Suc.prems by simp
      show "\<forall>j<i'. get_poll_by_code d (codes (Suc k + j)) \<noteq> None"
        using Suc Suc.prems(3) by (metis Suc_less_eq add_Suc_shift)
    qed
    with taken Suc show ?thesis by (auto simp: Let_def)
  qed
qed

lemma generate_loop_Inl:
  "generate_loop d codes k n = Inl e \<Longrightarrow> e = ValidationError ''Unable to generate unique poll code''"
  by (induction n arbitrary: k) (auto simp: Let_def split: option.splits)

lemma clean_loop_Inr:
  "clean_loop acc xs mx = Inr cl \<Longrightarrow>
     cl = acc @ map strip xs \<and> (\<forall>x \<in> set xs. strip x \<noteq> [] \<and> int (length (strip x)) \<le> mx)"
proof (induction xs arbitrary: acc)
  case Nil then show ?case by simp
next
  case (Cons a xs)
  from Cons.prems have a: "strip a \<noteq> []" "int (length (strip a)) \<le> mx"
    and rest: "clean_loop (acc @ [strip a]) xs mx = Inr cl"
    by (simp_all add: Let_def split: if_splits)
  from Cons.IH [OF rest] a show ?case by simp
qed

lemma clean_loop_ok:
  "(\<forall>x \<in> set xs. strip x \<noteq> [] \<and> int (length (strip x)) \<le> mx) \<Longrightarrow>
     clean_loop acc xs mx = Inr (acc @ map strip xs)"
  by (induction xs arbitrary: acc) (auto simp: Let_def)

lemma clean_loop_Inl:
  "clean_loop acc xs mx = Inl e \<Longrightarrow> \<exists>m. e = ValidationError m"
  by (induction xs arbitrary: acc) (auto simp: Let_def split: if_splits)

lemma length_card_distinct: "length xs \<noteq> card (set xs) \<longleftrightarrow> \<not> distinct xs"
  by (metis card_distinct distinct_card)

section \<open>The storage layer: new rows\<close>

lemma sum_list_all_zero: "(\<forall>x \<in> set xs. f x = (0::int)) \<Longrightarrow> sum_list (map f xs) = 0"
  by (induction xs) simp_all

lemma new_option_rows_text [simp]: "map option_text (new_option_rows f pid texts) = texts"
  by (simp add: new_option_rows_def enumerate_eq_zip map_zip_map2 case_prod_unfold comp_def)

lemma new_option_rows_length [simp]: "length (new_option_rows f pid texts) = length texts"
  by (simp add: new_option_rows_def)

lemma new_option_rows_nth:
  "i < length texts \<Longrightarrow> new_option_rows f pid texts ! i
     = \<lparr>o_id = f + int i, o_poll_id = pid, option_text = texts ! i, vote_count = 0\<rparr>"
  by (simp add: new_option_rows_def nth_enumerate_eq)

lemma new_option_rows_set:
  "opt \<in> set (new_option_rows f pid texts) \<Longrightarrow> o_poll_id opt = pid \<and> vote_count opt = 0 \<and> f \<le> o_id opt"
  by (auto simp: new_option_rows_def)

lemma new_option_rows_sorted: "sorted_wrt (<) (map o_id (new_option_rows f pid texts))"
  by (simp add: sorted_wrt_iff_nth_less new_option_rows_nth)

lemma new_option_rows_filter_same:
  "filter (\<lambda>opt. o_poll_id opt = pid) (new_option_rows f pid texts) = new_option_rows f pid texts"
  by (rule filter_True) (simp add: new_option_rows_set)

lemma new_option_rows_filter_other:
  "pid' \<noteq> pid \<Longrightarrow> filter (\<lambda>opt. o_poll_id opt = pid') (new_option_rows f pid texts) = []"
  by (simp add: filter_empty_conv new_option_rows_set)

lemma new_option_rows_sum: "sum_list (map vote_count (filter P (new_option_rows f pid texts))) = 0"
  by (rule sum_list_all_zero) (auto dest: new_option_rows_set)

lemma commit_poll_Inr:
  assumes "commit_poll d fault q code texts now = Inr (p, d')"
  shows "\<not> fault" and "code \<notin> set (map poll_code (polls d))"
    and "p = \<lparr>p_id = next_id (map p_id (polls d)), question = q, poll_code = code, created_at = now\<rparr>"
    and "d' = d\<lparr>polls := polls d @ [p],
               options := options d @ new_option_rows (next_id (map o_id (options d))) (p_id p) texts\<rparr>"
  using assms by (auto simp: commit_poll_def Let_def split: if_splits)

lemma commit_poll_free:
  "\<not> fault \<Longrightarrow> get_poll_by_code d code = None \<Longrightarrow> \<exists>p d'. commit_poll d fault q code texts now = Inr (p, d')"
  by (auto simp: commit_poll_def Let_def get_poll_by_code_def find_None_iff)

section \<open>create\_poll without its retry\<close>

lemma generate_unique_free:
  "generate_unique_poll_code d codes = Inr (code, draws) \<Longrightarrow> get_poll_by_code d code = None"
  by (auto simp: generate_unique_poll_code_def dest: generate_loop_Inr)

lemma commit_poll_no_integrity:
  "get_poll_by_code d code = None \<Longrightarrow> commit_poll d fault q code texts now \<noteq> Inl IntegrityError"
  by (auto simp: commit_poll_def Let_def get_poll_by_code_def find_None_iff)

lemma create_poll_unfold:
  "create_poll d codes fault now q option_texts min_options max_options
               max_question_length max_option_length =
     (if q = [] \<or> strip q = [] then (Inl (ValidationError ''Question is required''), d)
      else if int (length (strip q)) > max_question_length
      then (Inl (ValidationError (''Question must be '' @ str_int max_question_length
                                    @ '' characters or less'')), d)
      else if option_texts = [] \<or> int (length option_texts) < min_options
      then (Inl (ValidationError (''At least '' @ str_int min_options
                                    @ '' options are required'')), d)
      else if int (length option_texts) > max_options
      then (Inl (ValidationError (''Maximum '' @ str_int max_options @ '' options allowed'')), d)
      else case clean_loop [] option_texts max_option_length of
             Inl e \<Rightarrow> (Inl e, d)
           | Inr cleaned_options \<Rightarrow>
               if \<not> distinct cleaned_options
               then (Inl (ValidationError ''Options must be unique''), d)
               else case generate_unique_poll_code d codes of
                      Inl e \<Rightarrow> (Inl e, d)
                    | Inr (code, draws) \<Rightarrow>
                        (case commit_poll d fault (strip q) code cleaned_options now of
                           Inr (p, d') \<Rightarrow> (Inr p, d')
                         | Inl e \<Rightarrow> (Inl UncaughtStorageError, d)))"
  apply (subst create_poll.simps)
  apply (simp only: length_card_distinct)
  apply (auto split: sum.splits db_error.splits dest!: generate_unique_free
              simp: commit_poll_no_integrity)
  done

section \<open>submit\_vote: the outcomes\<close>

lemma execute_increment_fields [simp]:
  "polls (execute_increment d oid) = polls d"
  "votes (execute_increment d oid) = votes d"
  "map o_id (options (execute_increment d oid)) = map o_id (options d)"
  "map o_poll_id (options (execute_increment d oid)) = map o_poll_id (options d)"
  "map option_text (options (execute_increment d oid)) = map option_text (options d)"
  "length (options (execute_increment d oid)) = length (options d)"
  by (simp_all add: execute_increment_def comp_def if_distrib [of o_id] if_distrib [of o_poll_id]
        if_distrib [of option_text])

lemma insert_vote_Inr:
  assumes "insert_vote d pid oid ip tok now = Inr d'"
  shows "\<forall>v \<in> set (votes d). \<not> (v_poll_id v = pid \<and> ip_address v = ip)"
    and "\<forall>v \<in> set (votes d). \<not> (v_poll_id v = pid \<and> browser_token v = tok)"
    and "d' = d\<lparr>votes := votes d @ [new_vote_row d pid oid ip tok now]\<rparr>"
  using assms by (auto simp: insert_vote_def split: if_splits)


lemma insert_vote_duplicate:
  "\<exists>v \<in> set (votes d). v_poll_id v = pid \<and> (ip_address v = ip \<or> browser_token v = tok) \<Longrightarrow>
     insert_vote d pid oid ip tok now = Inl IntegrityError"
  by (auto simp: insert_vote_def)

lemma submit_vote_write_Inl:
  "submit_vote_write d fault now p oid ip tok = (Inl e, d') \<Longrightarrow> d' = d"
  by (auto simp: submit_vote_write_def split: if_splits sum.splits db_error.splits)

lemma submit_vote_write_Inr:
  assumes "submit_vote_write d fault now p oid ip tok = (Inr r, d')"
  shows "\<not> fault"
    and "insert_vote (execute_increment d oid) (p_id p) oid ip tok now = Inr d'"
    and "r = JDict [(''success'', JBool True), (''poll'', poll_to_dict d' p),
                    (''voted_option_id'', JInt oid)]"
  using assms by (auto simp: submit_vote_write_def split: if_splits sum.splits db_error.splits)

lemma submit_vote_Inl:
  "submit_vote d fault now code oid ip tok = (Inl e, d') \<Longrightarrow> d' = d"
  by (auto simp: submit_vote_def split: option.splits dest: submit_vote_write_Inl)

lemma submit_vote_Inr:
  assumes "submit_vote d fault now code oid ip tok = (Inr r, d')"
  shows "\<exists>p opt. get_poll_by_code d code = Some p
           \<and> find (\<lambda>opt. o_id opt = oid \<and> o_poll_id opt = p_id p) (options d) = Some opt
           \<and> submit_vote_write d fault now p oid ip tok = (Inr r, d')"
  using assms by (auto simp: submit_vote_def split: option.splits)

lemma find_SomeD: "find P xs = Some x \<Longrightarrow> x \<in> set xs \<and> P x"
  by (auto simp: find_Some_iff)

lemma get_poll_by_code_SomeD:
  "get_poll_by_code d code = Some p \<Longrightarrow> p \<in> set (polls d) \<and> poll_code p = code"
  by (auto simp: get_poll_by_code_def dest: find_SomeD)

lemma new_vote_row_sel [simp]:
  "v_poll_id (new_vote_row d pid oid ip tok now) = pid"
  "v_option_id (new_vote_row d pid oid ip tok now) = oid"
  "ip_address (new_vote_row d pid oid ip tok now) = ip"
  "browser_token (new_vote_row d pid oid ip tok now) = tok"
  "timestamp (new_vote_row d pid oid ip tok now) = now"
  by (simp_all add: new_vote_row_def)

lemma new_vote_row_increment [simp]:
  "new_vote_row (execute_increment d oid') pid oid ip tok now = new_vote_row d pid oid ip tok now"
  by (simp add: new_vote_row_def)

lemma submit_vote_Inr_state:
  assumes "submit_vote d fault now code oid ip tok = (Inr r, d')"
  shows "\<exists>p opt. get_poll_by_code d code = Some p \<and> opt \<in> set (options d) \<and> o_id opt = oid
    \<and> o_poll_id opt = p_id p \<and> \<not> fault
    \<and> (\<forall>v \<in> set (votes d). \<not> (v_poll_id v = p_id p \<and> ip_address v = ip))
    \<and> (\<forall>v \<in> set (votes d). \<not> (v_poll_id v = p_id p \<and> browser_token v = tok))
    \<and> d' = (execute_increment d oid)\<lparr>votes := votes d @ [new_vote_row d (p_id p) oid ip tok now]\<rparr>"
proof -
  from submit_vote_Inr [OF assms] obtain p opt where p: "get_poll_by_code d code = Some p"
    and opt: "find (\<lambda>opt. o_id opt = oid \<and> o_poll_id opt = p_id p) (options d) = Some opt"
    and w: "submit_vote_write d fault now p oid ip tok = (Inr r, d')" by blast
  from submit_vote_write_Inr [OF w] have nf: "\<not> fault"
    and ins: "insert_vote (execute_increment d oid) (p_id p) oid ip tok now = Inr d'" by simp_all
  from insert_vote_Inr [OF ins] find_SomeD [OF opt] p nf show ?thesis
    by (intro exI [of _ p] exI [of _ opt]) simp
qed

section \<open>The invariants of reachable states\<close>

lemma keys_ok_empty: "keys_ok empty_db"
  by (simp add: keys_ok_def empty_db_def)

lemma keys_ok_commit:
  assumes k: "keys_ok d" and c: "commit_poll d fault q code texts now = Inr (p, d')"
  shows "keys_ok d'"
proof -
  note cp = commit_poll_Inr [OF c]
  let ?new = "new_option_rows (next_id (map o_id (options d))) (p_id p) texts"
  have pid: "p_id p = next_id (map p_id (polls d))" and pc: "poll_code p = code"
    using cp(3) by simp_all
  have fresh_p: "p_id p \<notin> set (map p_id (polls d))"
    using next_id_fresh [of "p_id p" "map p_id (polls d)"] pid by auto
  have lt: "\<forall>x \<in> set (map o_id (options d)). \<forall>y \<in> set (map o_id ?new). x < y"
  proof (intro ballI)
    fix x y assume x: "x \<in> set (map o_id (options d))" and y: "y \<in> set (map o_id ?new)"
    from y obtain opt where "opt \<in> set ?new" "y = o_id opt" by auto
    then have "next_id (map o_id (options d)) \<le> y" using new_option_rows_set by blast
    with next_id_fresh [OF x] show "x < y" by simp
  qed
  have 1: "sorted_wrt (<) (map o_id (options d @ ?new))"
    using k lt new_option_rows_sorted by (simp add: keys_ok_def sorted_wrt_append)
  have 2: "distinct (map p_id (polls d @ [p]))" using k fresh_p by (simp add: keys_ok_def)
  have 3: "distinct (map poll_code (polls d @ [p]))" using k cp(2) pc by (simp add: keys_ok_def)
  have 4: "\<forall>opt \<in> set (options d @ ?new). o_poll_id opt \<in> set (map p_id (polls d @ [p]))"
    using k by (auto simp: keys_ok_def dest: new_option_rows_set)
  have 5: "\<forall>v \<in> set (votes d). v_poll_id v \<in> set (map p_id (polls d @ [p]))"
    using k by (auto simp: keys_ok_def)
  show ?thesis using 1 2 3 4 5 by (simp add: keys_ok_def cp(4))
qed

lemma tally_commit:
  assumes c: "commit_poll d fault q code texts now = Inr (p, d')"
  shows "tally d' pid = tally d pid"
  by (simp add: tally_def commit_poll_Inr(4) [OF c] new_option_rows_sum)

lemma votes_commit:
  "commit_poll d fault q code texts now = Inr (p, d') \<Longrightarrow> votes d' = votes d"
  by (drule commit_poll_Inr(4)) simp

lemma create_poll_Inl: "create_poll d codes fault now q ts mn mx mq mo = (Inl e, d') \<Longrightarrow> d' = d"
  by (simp add: create_poll_unfold split: if_splits sum.splits prod.splits)

lemma create_poll_Inr:
  assumes "create_poll d codes fault now q ts mn mx mq mo = (Inr p, d')"
  shows "\<exists>code draws. generate_unique_poll_code d codes = Inr (code, draws)
           \<and> clean_loop [] ts mo = Inr (map strip ts) \<and> distinct (map strip ts)
           \<and> commit_poll d fault (strip q) code (map strip ts) now = Inr (p, d')"
proof -
  from assms obtain cl where cl: "clean_loop [] ts mo = Inr cl"
    by (auto simp: create_poll_unfold split: if_splits sum.splits)
  from clean_loop_Inr [OF cl] have cl_eq: "cl = map strip ts" by simp
  from assms cl show ?thesis
    unfolding cl_eq by (auto simp: create_poll_unfold split: if_splits sum.splits prod.splits)
qed

lemma inc_absent:
  "oid \<notin> set (map o_id xs) \<Longrightarrow>
     map (\<lambda>opt. if o_id opt = oid then opt\<lparr>vote_count := vote_count opt + 1\<rparr> else opt) xs = xs"
  by (induction xs) auto

lemma inc_sum:
  assumes "distinct (map o_id xs)" "opt \<in> set xs" "o_id opt = oid"
  shows "sum_list (map vote_count (filter (\<lambda>x. o_poll_id x = pid)
           (map (\<lambda>x. if o_id x = oid then x\<lparr>vote_count := vote_count x + 1\<rparr> else x) xs)))
         = sum_list (map vote_count (filter (\<lambda>x. o_poll_id x = pid) xs))
           + (if o_poll_id opt = pid then 1 else 0)"
  using assms
proof (induction xs)
  case Nil then show ?case by simp
next
  case (Cons a xs)
  show ?case
  proof (cases "o_id a = oid")
    case True
    with Cons.prems have "oid \<notin> set (map o_id xs)" by auto
    moreover from this Cons.prems True have "opt = a" by force
    ultimately show ?thesis using True by (simp add: inc_absent)
  next
    case False
    with Cons.prems have "opt \<in> set xs" by auto
    with Cons.IH Cons.prems False show ?thesis by simp
  qed
qed

lemma sorted_wrt_less_distinct: "sorted_wrt (<) (xs :: int list) \<Longrightarrow> distinct xs"
  by (induction xs) auto

lemma keys_ok_distinct: "keys_ok d \<Longrightarrow> distinct (map o_id (options d))"
  by (simp add: keys_ok_def sorted_wrt_less_distinct)

lemma keys_ok_vote:
  assumes k: "keys_ok d" and s: "submit_vote d fault now code oid ip tok = (Inr r, d')"
  shows "keys_ok d'"
proof -
  obtain p :: poll and opt where p: "get_poll_by_code d code = Some p"
    and d': "d' = (execute_increment d oid)\<lparr>votes := votes d @ [new_vote_row d (p_id p) oid ip tok now]\<rparr>"
    using submit_vote_Inr_state [OF s] by blast
  have pin: "p_id p \<in> set (map p_id (polls d))" using get_poll_by_code_SomeD [OF p] by auto
  have "\<forall>opt \<in> set (options (execute_increment d oid)). o_poll_id opt \<in> set (map p_id (polls d))"
    using k by (auto simp: keys_ok_def execute_increment_def)
  with k pin show ?thesis by (simp add: keys_ok_def d')
qed

lemma votes_unique_vote:
  assumes u: "votes_unique d" and s: "submit_vote d fault now code oid ip tok = (Inr r, d')"
  shows "votes_unique d'"
proof -
  obtain p :: poll where
    a: "\<forall>v \<in> set (votes d). \<not> (v_poll_id v = p_id p \<and> ip_address v = ip)"
    and b: "\<forall>v \<in> set (votes d). \<not> (v_poll_id v = p_id p \<and> browser_token v = tok)"
    and d': "d' = (execute_increment d oid)\<lparr>votes := votes d @ [new_vote_row d (p_id p) oid ip tok now]\<rparr>"
    using submit_vote_Inr_state [OF s] by blast
  from u a b show ?thesis by (auto simp: votes_unique_def d')
qed

lemma tally_vote:
  assumes k: "keys_ok d" and t: "tally d pid"
    and s: "submit_vote d fault now code oid ip tok = (Inr r, d')"
  shows "tally d' pid"
proof -
  obtain p :: poll and opt where opt: "opt \<in> set (options d)" "o_id opt = oid" "o_poll_id opt = p_id p"
    and d': "d' = (execute_increment d oid)\<lparr>votes := votes d @ [new_vote_row d (p_id p) oid ip tok now]\<rparr>"
    using submit_vote_Inr_state [OF s] by blast
  have "sum_list (map vote_count (filter (\<lambda>x. o_poll_id x = pid) (options (execute_increment d oid))))
        = sum_list (map vote_count (filter (\<lambda>x. o_poll_id x = pid) (options d)))
          + (if p_id p = pid then 1 else 0)"
    using inc_sum [OF keys_ok_distinct [OF k] opt(1,2), of pid] opt(3)
    by (simp add: execute_increment_def)
  with t show ?thesis by (simp add: tally_def d')
qed

lemma reachable_invariants:
  "reachable d \<Longrightarrow> keys_ok d \<and> votes_unique d \<and> (\<forall>pid. tally d pid)"
proof (induction rule: reachable.induct)
  case init
  show ?case by (simp add: keys_ok_def votes_unique_def tally_def empty_db_def)
next
  case (create d codes fault now q ts mn mx mq mo r d')
  show ?case
  proof (cases r)
    case (Inl e)
    with create.hyps(2) have "d' = d" by (auto dest: create_poll_Inl)
    with create.IH show ?thesis by simp
  next
    case (Inr p)
    with create.hyps(2) obtain code where c: "commit_poll d fault (strip q) code (map strip ts) now = Inr (p, d')"
      by (auto dest: create_poll_Inr)
    from create.IH keys_ok_commit [OF _ c] tally_commit [OF c] votes_commit [OF c]
    show ?thesis by (simp add: votes_unique_def)
  qed
next
  case (vote d fault now code oid ip tok r d')
  show ?case
  proof (cases r)
    case (Inl e)
    with vote.hyps(2) have "d' = d" by (auto dest: submit_vote_Inl)
    with vote.IH show ?thesis by simp
  next
    case (Inr j)
    with vote.hyps(2) have s: "submit_vote d fault now code oid ip tok = (Inr j, d')" by simp
    from vote.IH keys_ok_vote [OF _ s] votes_unique_vote [OF _ s] tally_vote [OF _ _ s]
    show ?thesis by blast
  qed
qed

section \<open>The worked example is reachable\<close>

lemma empty_db_sel [simp]: "polls empty_db = []" "options empty_db = []" "votes empty_db = []"
  by (simp_all add: empty_db_def)

lemma demo_generate: "generate_unique_poll_code empty_db demo_codes = Inr (''1A2B3C4D'', 1)"
  by (simp add: generate_unique_poll_code_def max_attempts_def eval_nat_numeral Let_def
        get_poll_by_code_def demo_codes_def)

lemma demo_create:
  "create_poll empty_db demo_codes False demo_time ''Pick one'' [''A'', ''B''] 2 10 500 200
     = (Inr demo_poll, ledger_created)"
  apply (simp add: create_poll_unfold strip_def py_isspace_def demo_generate)
  apply (simp add: commit_poll_def Let_def empty_db_def next_id_def new_option_rows_def
          demo_poll_def ledger_created_def)
  done

lemma demo_poll_lookup [simp]:
  "get_poll_by_code ledger_created ''1A2B3C4D'' = Some demo_poll"
  "get_poll_by_code ledger_voted ''1A2B3C4D'' = Some demo_poll"
  by (simp_all add: get_poll_by_code_def ledger_created_def ledger_voted_def demo_poll_def)

lemma demo_vote:
  "snd (submit_vote ledger_created False demo_time ''1A2B3C4D'' 1 ''10.0.0.1'' ''token-x'') = ledger_voted"
  apply (simp add: submit_vote_def)
  apply (simp add: ledger_created_def ledger_voted_def demo_poll_def submit_vote_write_def
           insert_vote_def execute_increment_def new_vote_row_def next_id_def)
  done

lemma reachable_created: "reachable ledger_created"
  using reachable.create [OF reachable.init demo_create] .

lemma reachable_voted: "reachable ledger_voted"
  using reachable.vote [OF reachable_created, of False demo_time "''1A2B3C4D''" 1 "''10.0.0.1''" "''token-x''"]
    demo_vote by (metis prod.collapse)

section \<open>One vote per identity\<close>

lemma submit_vote_duplicate:
  assumes "get_poll_by_code d code = Some p"
    and "\<exists>v \<in> set (votes d). v_poll_id v = p_id p \<and> (ip_address v = ip \<or> browser_token v = tok)"
  shows "\<exists>e. submit_vote d fault now code oid ip tok = (Inl e, d)"
proof (cases "fst (submit_vote d fault now code oid ip tok)")
  case (Inl e)
  then show ?thesis
    using submit_vote_Inl [of d fault now code oid ip tok e "snd (submit_vote d fault now code oid ip tok)"]
    by (metis prod.collapse)
next
  case (Inr r)
  then have s: "submit_vote d fault now code oid ip tok = (Inr r, snd (submit_vote d fault now code oid ip tok))"
    by (metis prod.collapse)
  from submit_vote_Inr_state [OF s] assms show ?thesis by auto
qed

lemma submit_vote_write_duplicate:
  assumes "\<exists>v \<in> set (votes d). v_poll_id v = p_id p \<and> (ip_address v = ip \<or> browser_token v = tok)"
  shows "submit_vote_write d False now p oid ip tok = (Inl (DuplicateVoteError ''You have already voted''), d)"
proof -
  have "insert_vote (execute_increment d oid) (p_id p) oid ip tok now = Inl IntegrityError"
    using assms by (intro insert_vote_duplicate) simp
  then show ?thesis by (simp add: submit_vote_write_def)
qed

lemma submit_vote_write_unique:
  assumes "votes_unique d"
  shows "votes_unique (snd (submit_vote_write d fault now p oid ip tok))"
proof (cases "submit_vote_write d fault now p oid ip tok")
  case (Pair r d')
  show ?thesis
  proof (cases r)
    case (Inl e)
    with Pair assms show ?thesis by (auto dest: submit_vote_write_Inl)
  next
    case (Inr j)
    with Pair have "insert_vote (execute_increment d oid) (p_id p) oid ip tok now = Inr d'"
      by (auto dest: submit_vote_write_Inr)
    from insert_vote_Inr [OF this]
    have a: "\<forall>v \<in> set (votes d). \<not> (v_poll_id v = p_id p \<and> ip_address v = ip)"
      and b: "\<forall>v \<in> set (votes d). \<not> (v_poll_id v = p_id p \<and> browser_token v = tok)"
      and d': "votes d' = votes d @ [new_vote_row d (p_id p) oid ip tok now]"
      by simp_all
    have "votes_unique d'"
      using assms a b unfolding votes_unique_def d' by auto
    with Pair show ?thesis by simp
  qed
qed

text \<open>
  C1: in every reachable state of the ledger no two votes share a poll and an IP address,
  and no two share a poll and a browser token. A \<open>submit_vote\<close> for a poll in which the
  IP address or the browser token already has a vote fails and leaves the ledger as it is.
  The storage layer enforces this by itself: the transaction of \<open>submit_vote\<close>, run
  without the application's checks, is refused with \<open>DuplicateVoteError\<close> when such a
  vote exists, and whatever its arguments it keeps the votes unique.
\<close>

theorem one_vote_per_identity:
  assumes "reachable d"
  shows "votes_unique d
    \<and> (\<forall>fault now code oid ip tok p.
          get_poll_by_code d code = Some p
          \<and> (\<exists>v \<in> set (votes d). v_poll_id v = p_id p \<and> (ip_address v = ip \<or> browser_token v = tok))
          \<longrightarrow> (\<exists>e. submit_vote d fault now code oid ip tok = (Inl e, d)))
    \<and> (\<forall>now oid ip tok p.
          (\<exists>v \<in> set (votes d). v_poll_id v = p_id p \<and> (ip_address v = ip \<or> browser_token v = tok))
          \<longrightarrow> submit_vote_write d False now p oid ip tok
                = (Inl (DuplicateVoteError ''You have already voted''), d))
    \<and> (\<forall>fault now oid ip tok p. votes_unique (snd (submit_vote_write d fault now p oid ip tok)))"
proof -
  have u: "votes_unique d" using reachable_invariants [OF assms] by simp
  show ?thesis
  proof (intro conjI allI impI)
    show "votes_unique d" by (rule u)
  next
    fix fault now code oid ip tok and p :: poll
    assume "get_poll_by_code d code = Some p
        \<and> (\<exists>v \<in> set (votes d). v_poll_id v = p_id p \<and> (ip_address v = ip \<or> browser_token v = tok))"
    then show "\<exists>e. submit_vote d fault now code oid ip tok = (Inl e, d)"
      using submit_vote_duplicate [of d code p ip tok fault now oid] by simp
  next
    fix now oid ip tok and p :: poll
    assume "\<exists>v \<in> set (votes d). v_poll_id v = p_id p \<and> (ip_address v = ip \<or> browser_token v = tok)"
    then show "submit_vote_write d False now p oid ip tok
             = (Inl (DuplicateVoteError ''You have already voted''), d)"
      by (rule submit_vote_write_duplicate)
  next
    fix fault now oid ip tok and p :: poll
    show "votes_unique (snd (submit_vote_write d fault now p oid ip tok))"
      by (rule submit_vote_write_unique [OF u])
  qed
qed

theorem one_vote_per_identity_witness:
  "votes_unique ledger_voted
   \<and> submit_vote ledger_voted False demo_time ''1A2B3C4D'' 2 ''10.0.0.1'' ''token-y''
       = (Inl (DuplicateVoteError ''You have already voted from this IP address''), ledger_voted)
   \<and> submit_vote_write ledger_voted False demo_time demo_poll 2 ''10.0.0.9'' ''token-x''
       = (Inl (DuplicateVoteError ''You have already voted''), ledger_voted)
   \<and> votes_unique (snd (submit_vote_write ledger_voted False demo_time demo_poll 2 ''10.0.0.9'' ''token-y''))"
proof -
  note t = one_vote_per_identity [OF reachable_voted]
  have v: "\<exists>v \<in> set (votes ledger_voted). v_poll_id v = p_id demo_poll
             \<and> (ip_address v = ''10.0.0.9'' \<or> browser_token v = ''token-x'')"
    by (simp add: ledger_voted_def demo_poll_def)
  have 1: "votes_unique ledger_voted" using t by (rule conjunct1)
  have 2: "submit_vote ledger_voted False demo_time ''1A2B3C4D'' 2 ''10.0.0.1'' ''token-y''
       = (Inl (DuplicateVoteError ''You have already voted from this IP address''), ledger_voted)"
    by (simp add: submit_vote_def) (simp add: ledger_voted_def demo_poll_def)
  have 3: "submit_vote_write ledger_voted False demo_time demo_poll 2 ''10.0.0.9'' ''token-x''
       = (Inl (DuplicateVoteError ''You have already voted''), ledger_voted)"
    using t [THEN conjunct2, THEN conjunct2, THEN conjunct1, rule_format, OF v] .
  have 4: "votes_unique (snd (submit_vote_write ledger_voted False demo_time demo_poll 2 ''10.0.0.9'' ''token-y''))"
    using t [THEN conjunct2, THEN conjunct2, THEN conjunct2, rule_format] .
  show ?thesis using 1 2 3 4 by (intro conjI)
qed

section \<open>The tally invariant\<close>

lemma poll_options_table:
  assumes "keys_ok d"
  shows "poll_options d p = filter (\<lambda>opt. o_poll_id opt = p_id p) (options d)"
proof -
  have "sorted_wrt (<) (map o_id (options d))" using assms by (simp add: keys_ok_def)
  then have "sorted_wrt (\<lambda>a b. o_id a < o_id b) (filter (\<lambda>opt. o_poll_id opt = p_id p) (options d))"
    by (simp add: sorted_wrt_map sorted_wrt_filter)
  then have "sorted_wrt (<) (map o_id (filter (\<lambda>opt. o_poll_id opt = p_id p) (options d)))"
    by (simp add: sorted_wrt_map)
  then have "sorted (map o_id (filter (\<lambda>opt. o_poll_id opt = p_id p) (options d)))"
    by (rule strict_sorted_imp_sorted)
  then show ?thesis unfolding poll_options_def by (rule sort_key_id_if_sorted)
qed

lemma create_poll_new_options:
  assumes k: "keys_ok d" and c: "create_poll d codes fault now q ts mn mx mq mo = (Inr p, d')"
  shows "poll_options d' p = new_option_rows (next_id (map o_id (options d))) (p_id p) (map strip ts)"
    and "votes d' = votes d" and "question p = strip q"
    and "p_id p \<notin> set (map p_id (polls d))"
proof -
  from create_poll_Inr [OF c] obtain code where
    cm: "commit_poll d fault (strip q) code (map strip ts) now = Inr (p, d')" by blast
  note cp = commit_poll_Inr [OF cm]
  have k': "keys_ok d'" by (rule keys_ok_commit [OF k cm])
  have pid: "p_id p = next_id (map p_id (polls d))" using cp(3) by simp
  show fresh: "p_id p \<notin> set (map p_id (polls d))"
    using next_id_fresh [of "p_id p" "map p_id (polls d)"] pid by auto
  have "o_poll_id opt \<noteq> p_id p" if "opt \<in> set (options d)" for opt
  proof
    assume e: "o_poll_id opt = p_id p"
    from k that have "o_poll_id opt \<in> set (map p_id (polls d))" by (simp add: keys_ok_def)
    with e fresh show False by simp
  qed
  then have old: "filter (\<lambda>opt. o_poll_id opt = p_id p) (options d) = []"
    by (simp add: filter_empty_conv)
  have "options d' = options d @ new_option_rows (next_id (map o_id (options d))) (p_id p) (map strip ts)"
    by (simp add: cp(4))
  then show "poll_options d' p = new_option_rows (next_id (map o_id (options d))) (p_id p) (map strip ts)"
    unfolding poll_options_table [OF k'] by (simp add: old new_option_rows_filter_same)
  show "votes d' = votes d" by (simp add: cp(4))
  show "question p = strip q" using cp(3) by simp
qed

text \<open>
  C2: in every state reachable through \<open>create_poll\<close> and \<open>submit_vote\<close>, for every
  poll the vote counts of its options add up to the number of votes that refer to it.
  \<open>create_poll\<close> leaves the new poll with every count at 0 and no vote; \<open>submit_vote\<close>
  either changes nothing, or inserts one vote and increments the count of the voted option
  of that poll, together.
\<close>

theorem tally_invariant:
  assumes "reachable d"
  shows "(\<forall>p \<in> set (polls d).
            sum_list (map vote_count (poll_options d p))
              = int (length (filter (\<lambda>v. v_poll_id v = p_id p) (votes d))))
    \<and> (\<forall>codes fault now q ts mn mx mq mo p d'.
          create_poll d codes fault now q ts mn mx mq mo = (Inr p, d')
          \<longrightarrow> (\<forall>opt \<in> set (poll_options d' p). vote_count opt = 0)
              \<and> filter (\<lambda>v. v_poll_id v = p_id p) (votes d') = [])
    \<and> (\<forall>fault now code oid ip tok r d'.
          submit_vote d fault now code oid ip tok = (r, d')
          \<longrightarrow> (isl r \<and> d' = d)
              \<or> (\<exists>p opt. get_poll_by_code d code = Some p \<and> opt \<in> set (options d)
                    \<and> o_id opt = oid \<and> o_poll_id opt = p_id p
                    \<and> votes d' = votes d @ [new_vote_row d (p_id p) oid ip tok now]
                    \<and> options d' = options (execute_increment d oid)
                    \<and> sum_list (map vote_count (poll_options d' p))
                        = sum_list (map vote_count (poll_options d p)) + 1))"
proof (intro conjI ballI allI impI)
  note inv = reachable_invariants [OF assms]
  fix p assume "p \<in> set (polls d)"
  from inv have "tally d (p_id p)" by simp
  then show "sum_list (map vote_count (poll_options d p))
              = int (length (filter (\<lambda>v. v_poll_id v = p_id p) (votes d)))"
    using inv by (simp add: tally_def poll_options_table)
next
  note inv = reachable_invariants [OF assms]
  fix codes fault now q ts mn mx mq mo p d' opt
  assume c: "create_poll d codes fault now q ts mn mx mq mo = (Inr p, d')"
    and o: "opt \<in> set (poll_options d' p)"
  from inv have k: "keys_ok d" by simp
  from o show "vote_count opt = 0"
    unfolding create_poll_new_options(1) [OF k c] by (auto dest: new_option_rows_set)
next
  note inv = reachable_invariants [OF assms]
  fix codes fault now q ts mn mx mq mo and p :: poll and d'
  assume c: "create_poll d codes fault now q ts mn mx mq mo = (Inr p, d')"
  from inv have k: "keys_ok d" by simp
  have "v_poll_id v \<noteq> p_id p" if "v \<in> set (votes d)" for v
  proof
    assume e: "v_poll_id v = p_id p"
    from k that have "v_poll_id v \<in> set (map p_id (polls d))" by (simp add: keys_ok_def)
    with e create_poll_new_options(4) [OF k c] show False by simp
  qed
  then show "filter (\<lambda>v. v_poll_id v = p_id p) (votes d') = []"
    by (simp add: create_poll_new_options(2) [OF k c] filter_empty_conv)
next
  note inv = reachable_invariants [OF assms]
  fix fault now code oid ip tok r d'
  assume s: "submit_vote d fault now code oid ip tok = (r, d')"
  from inv have k: "keys_ok d" by simp
  show "(isl r \<and> d' = d)
              \<or> (\<exists>p opt. get_poll_by_code d code = Some p \<and> opt \<in> set (options d)
                    \<and> o_id opt = oid \<and> o_poll_id opt = p_id p
                    \<and> votes d' = votes d @ [new_vote_row d (p_id p) oid ip tok now]
                    \<and> options d' = options (execute_increment d oid)
                    \<and> sum_list (map vote_count (poll_options d' p))
                        = sum_list (map vote_count (poll_options d p)) + 1)"
  proof (cases r)
    case (Inl e)
    with s show ?thesis by (auto dest: submit_vote_Inl)
  next
    case (Inr j)
    with s have s': "submit_vote d fault now code oid ip tok = (Inr j, d')" by simp
    obtain p :: poll and opt where p: "get_poll_by_code d code = Some p"
      and opt: "opt \<in> set (options d)" "o_id opt = oid" "o_poll_id opt = p_id p"
      and d': "d' = (execute_increment d oid)\<lparr>votes := votes d @ [new_vote_row d (p_id p) oid ip tok now]\<rparr>"
      using submit_vote_Inr_state [OF s'] by blast
    have k': "keys_ok d'" by (rule keys_ok_vote [OF k s'])
    have "sum_list (map vote_count (filter (\<lambda>x. o_poll_id x = p_id p) (options (execute_increment d oid))))
        = sum_list (map vote_count (filter (\<lambda>x. o_poll_id x = p_id p) (options d))) + 1"
      using inc_sum [OF keys_ok_distinct [OF k] opt(1,2), of "p_id p"] opt(3)
      by (simp add: execute_increment_def)
    moreover have "options d' = options (execute_increment d oid)" by (simp add: d')
    ultimately have "sum_list (map vote_count (poll_options d' p))
                 = sum_list (map vote_count (poll_options d p)) + 1"
      unfolding poll_options_table [OF k] poll_options_table [OF k'] by simp
    with p opt d' show ?thesis by auto
  qed
qed

theorem tally_invariant_witness:
  "sum_list (map vote_count (poll_options ledger_voted demo_poll))
     = int (length (filter (\<lambda>v. v_poll_id v = p_id demo_poll) (votes ledger_voted)))
   \<and> filter (\<lambda>v. v_poll_id v = p_id demo_poll) (votes ledger_created) = []
   \<and> length (votes ledger_voted) = 1"
proof -
  have m: "demo_poll \<in> set (polls ledger_voted)" by (simp add: ledger_voted_def)
  have 1: "sum_list (map vote_count (poll_options ledger_voted demo_poll))
     = int (length (filter (\<lambda>v. v_poll_id v = p_id demo_poll) (votes ledger_voted)))"
    using tally_invariant [OF reachable_voted, THEN conjunct1, rule_format, OF m] .
  have 2: "filter (\<lambda>v. v_poll_id v = p_id demo_poll) (votes ledger_created) = []"
    using tally_invariant [OF reachable.init, THEN conjunct2, THEN conjunct1, rule_format,
        OF demo_create] by simp
  have 3: "length (votes ledger_voted) = 1" by (simp add: ledger_voted_def)
  from 1 2 3 show ?thesis by (intro conjI)
qed

section \<open>What a successful vote changes\<close>

lemma map_inc_update:
  assumes "distinct (map o_id xs)" "i < length xs" "o_id (xs ! i) = oid"
  shows "map (\<lambda>x. if o_id x = oid then x\<lparr>vote_count := vote_count x + 1\<rparr> else x) xs
         = xs[i := (xs ! i)\<lparr>vote_count := vote_count (xs ! i) + 1\<rparr>]"
proof (rule nth_equalityI)
  show "length (map (\<lambda>x. if o_id x = oid then x\<lparr>vote_count := vote_count x + 1\<rparr> else x) xs)
        = length (xs[i := (xs ! i)\<lparr>vote_count := vote_count (xs ! i) + 1\<rparr>])" by simp
next
  fix j assume "j < length (map (\<lambda>x. if o_id x = oid then x\<lparr>vote_count := vote_count x + 1\<rparr> else x) xs)"
  then have j: "j < length xs" by simp
  show "map (\<lambda>x. if o_id x = oid then x\<lparr>vote_count := vote_count x + 1\<rparr> else x) xs ! j
        = xs[i := (xs ! i)\<lparr>vote_count := vote_count (xs ! i) + 1\<rparr>] ! j"
  proof (cases "j = i")
    case True
    with assms show ?thesis by simp
  next
    case False
    have "map o_id xs ! j \<noteq> map o_id xs ! i"
      using nth_eq_iff_index_eq [OF assms(1), of j i] assms(2) j False by simp
    then have "o_id (xs ! j) \<noteq> oid" using assms(2,3) j by simp
    with j False show ?thesis by simp
  qed
qed

text \<open>
  C10: a successful \<open>submit_vote\<close> leaves the table of polls as it was, appends one vote
  to the table of votes, and replaces exactly one row of the table of options, the row of
  the voted option, by the same row with its \<open>vote_count\<close> one higher.
\<close>

theorem submit_vote_frame:
  assumes "reachable d" and "submit_vote d fault now code oid ip tok = (Inr r, d')"
  shows "polls d' = polls d
    \<and> (\<exists>p. get_poll_by_code d code = Some p
            \<and> votes d' = votes d @ [new_vote_row d (p_id p) oid ip tok now])
    \<and> (\<exists>i < length (options d). o_id (options d ! i) = oid
            \<and> options d' = (options d)[i := (options d ! i)\<lparr>vote_count := vote_count (options d ! i) + 1\<rparr>])"
proof -
  from reachable_invariants [OF assms(1)] have k: "keys_ok d" by simp
  obtain p :: poll and opt where p: "get_poll_by_code d code = Some p"
    and opt: "opt \<in> set (options d)" "o_id opt = oid"
    and d': "d' = (execute_increment d oid)\<lparr>votes := votes d @ [new_vote_row d (p_id p) oid ip tok now]\<rparr>"
    using submit_vote_Inr_state [OF assms(2)] by blast
  from opt(1) obtain i where i: "i < length (options d)" "options d ! i = opt"
    by (auto simp: in_set_conv_nth)
  have "options d' = (options d)[i := (options d ! i)\<lparr>vote_count := vote_count (options d ! i) + 1\<rparr>]"
    using map_inc_update [OF keys_ok_distinct [OF k] i(1), of oid] i(2) opt(2)
    by (simp add: d' execute_increment_def)
  with i opt(2) have 3: "\<exists>i < length (options d). o_id (options d ! i) = oid
            \<and> options d' = (options d)[i := (options d ! i)\<lparr>vote_count := vote_count (options d ! i) + 1\<rparr>]"
    by blast
  have 1: "polls d' = polls d" by (simp add: d')
  have 2: "\<exists>p. get_poll_by_code d code = Some p
            \<and> votes d' = votes d @ [new_vote_row d (p_id p) oid ip tok now]"
    using p by (simp add: d')
  from 1 2 3 show ?thesis by (intro conjI)
qed

lemma demo_vote_full:
  "submit_vote ledger_created False demo_time ''1A2B3C4D'' 1 ''10.0.0.1'' ''token-x''
     = (Inr (JDict [(''success'', JBool True), (''poll'', poll_to_dict ledger_voted demo_poll),
                    (''voted_option_id'', JInt 1)]), ledger_voted)"
  apply (simp add: submit_vote_def)
  apply (simp add: ledger_created_def ledger_voted_def demo_poll_def submit_vote_write_def
           insert_vote_def execute_increment_def new_vote_row_def next_id_def)
  done

theorem submit_vote_frame_witness:
  "polls ledger_voted = polls ledger_created
   \<and> (\<exists>p. get_poll_by_code ledger_created ''1A2B3C4D'' = Some p
          \<and> votes ledger_voted = votes ledger_created
               @ [new_vote_row ledger_created (p_id p) 1 ''10.0.0.1'' ''token-x'' demo_time])
   \<and> (\<exists>i < length (options ledger_created). o_id (options ledger_created ! i) = 1
          \<and> options ledger_voted = (options ledger_created)
               [i := (options ledger_created ! i)\<lparr>vote_count := vote_count (options ledger_created ! i) + 1\<rparr>])"
  using submit_vote_frame [OF reachable_created demo_vote_full] .

section \<open>What a failed vote changes\<close>








section \<open>Validation of a creation request\<close>

lemma clean_loop_total:
  "(\<exists>m. clean_loop acc ts mo = Inl (ValidationError m)) \<or> clean_loop acc ts mo = Inr (acc @ map strip ts)"
proof (cases "clean_loop acc ts mo")
  case (Inl e)
  then show ?thesis using clean_loop_Inl by blast
next
  case (Inr cl)
  then show ?thesis using clean_loop_Inr by blast
qed

lemma bad_count_or_duplicate_rejected:
  assumes "int (length ts) < mn \<or> int (length ts) > mx \<or> \<not> distinct (map strip ts)"
  shows "\<exists>m. create_poll d codes fault now q ts mn mx mq mo = (Inl (ValidationError m), d)"
proof -
  consider (bad) "\<exists>m. clean_loop [] ts mo = Inl (ValidationError m)"
    | (ok) "clean_loop [] ts mo = Inr (map strip ts)"
    using clean_loop_total [of "[]" ts mo] by auto
  then show ?thesis
  proof cases
    case bad
    then obtain m where "clean_loop [] ts mo = Inl (ValidationError m)" by blast
    then show ?thesis by (simp add: create_poll_unfold)
  next
    case ok
    with assms show ?thesis by (auto simp: create_poll_unfold)
  qed
qed

text \<open>
  C7: a request whose number of options is below \<open>min_options\<close> or above
  \<open>max_options\<close>, or whose options are not pairwise distinct after trimming, makes
  \<open>create_poll\<close> fail with \<open>ValidationError\<close> and leaves the ledger as it is: no poll
  and no option row is created.
\<close>

theorem create_poll_rejects:
  "int (length ts) < mn \<or> int (length ts) > mx \<or> \<not> distinct (map strip ts) \<Longrightarrow>
     \<exists>m. create_poll d codes fault now q ts mn mx mq mo = (Inl (ValidationError m), d)"
  by (rule bad_count_or_duplicate_rejected)

theorem create_poll_rejects_witness:
  "(\<exists>m. create_poll ledger_created demo_codes False demo_time ''Q'' [''A''] 2 10 500 200
          = (Inl (ValidationError m), ledger_created))
   \<and> (\<exists>m. create_poll ledger_created demo_codes False demo_time ''Q'' [''A'', ''B'', ''C''] 2 2 500 200
          = (Inl (ValidationError m), ledger_created))
   \<and> (\<exists>m. create_poll ledger_created demo_codes False demo_time ''Q'' [''A'', '' A ''] 2 10 500 200
          = (Inl (ValidationError m), ledger_created))"
proof -
  have 1: "int (length [''A'']) < 2 \<or> int (length [''A'']) > 10 \<or> \<not> distinct (map strip [''A''])"
    by simp
  have 2: "int (length [''A'', ''B'', ''C'']) < 2 \<or> int (length [''A'', ''B'', ''C'']) > 2
           \<or> \<not> distinct (map strip [''A'', ''B'', ''C''])"
    by simp
  have 3: "int (length [''A'', '' A '']) < 2 \<or> int (length [''A'', '' A '']) > 10
           \<or> \<not> distinct (map strip [''A'', '' A ''])"
    by (simp add: strip_def py_isspace_def)
  show ?thesis
    using create_poll_rejects [OF 1] create_poll_rejects [OF 2] create_poll_rejects [OF 3]
    by (intro conjI)
qed

section \<open>A valid creation request\<close>

lemma generate_unique_first_free:
  assumes "i < max_attempts" "get_poll_by_code d (codes i) = None"
    "\<forall>j<i. get_poll_by_code d (codes j) \<noteq> None"
  shows "generate_unique_poll_code d codes = Inr (codes i, Suc i)"
  using generate_loop_first_free [of i max_attempts d codes 0] assms
  by (simp add: generate_unique_poll_code_def)

lemma generate_unique_exhausted:
  assumes "\<forall>i<max_attempts. get_poll_by_code d (codes i) \<noteq> None"
  shows "generate_unique_poll_code d codes = Inl (ValidationError ''Unable to generate unique poll code'')"
  using generate_loop_all_taken [of max_attempts d codes 0] assms
  by (simp add: generate_unique_poll_code_def)

lemma generate_unique_some_free:
  assumes "\<exists>i<max_attempts. get_poll_by_code d (codes i) = None"
  shows "\<exists>i<max_attempts. generate_unique_poll_code d codes = Inr (codes i, Suc i)"
proof -
  define i where "i = (LEAST i. get_poll_by_code d (codes i) = None)"
  from assms obtain k where k: "k < max_attempts" "get_poll_by_code d (codes k) = None" by blast
  have free: "get_poll_by_code d (codes i) = None" unfolding i_def using k(2) by (rule LeastI)
  have le: "i \<le> k" unfolding i_def using k(2) by (rule Least_le)
  have before: "\<forall>j<i. get_poll_by_code d (codes j) \<noteq> None"
    unfolding i_def using not_less_Least by blast
  from le k(1) have "i < max_attempts" by simp
  with generate_unique_first_free [OF this free before] show ?thesis by blast
qed

lemma create_poll_valid:
  assumes k: "keys_ok d"
    and q: "q \<noteq> []" "strip q \<noteq> []" "int (length (strip q)) \<le> mq"
    and n: "ts \<noteq> []" "mn \<le> int (length ts)" "int (length ts) \<le> mx"
    and t: "\<forall>t \<in> set ts. strip t \<noteq> [] \<and> int (length (strip t)) \<le> mo"
    and u: "distinct (map strip ts)"
    and c: "\<exists>i<max_attempts. get_poll_by_code d (codes i) = None"
    and f: "\<not> fault"
  shows "\<exists>p d'. create_poll d codes fault now q ts mn mx mq mo = (Inr p, d')
           \<and> length (poll_options d' p) = length ts
           \<and> map option_text (poll_options d' p) = map strip ts
           \<and> question p = strip q"
proof -
  from generate_unique_some_free [OF c] obtain i where
    g: "generate_unique_poll_code d codes = Inr (codes i, Suc i)" by blast
  from generate_unique_free [OF g] commit_poll_free [OF f, of d "codes i" "strip q" "map strip ts" now]
  obtain p d' where cm: "commit_poll d fault (strip q) (codes i) (map strip ts) now = Inr (p, d')"
    by blast
  have cl: "clean_loop [] ts mo = Inr (map strip ts)"
    using clean_loop_ok [OF t, of "[]"] by simp
  have cr: "create_poll d codes fault now q ts mn mx mq mo = (Inr p, d')"
    using q n u by (simp add: create_poll_unfold cl g cm)
  from create_poll_new_options [OF k cr] have
    "poll_options d' p = new_option_rows (next_id (map o_id (options d))) (p_id p) (map strip ts)"
    "question p = strip q" by simp_all
  with cr show ?thesis by simp
qed

text \<open>
  C8: on a reachable ledger, a valid request (a question that is not empty after trimming
  and within its bound, a number of options within the bounds, every option not empty
  after trimming and within its bound, the trimmed options pairwise distinct) creates a
  poll, provided the storage does not fail and one of the ten codes drawn is free; and
  every poll that \<open>create_poll\<close> creates has as many options as the texts given, with
  the trimmed texts in the order given, and the trimmed question.
\<close>

theorem create_poll_keeps_options:
  assumes "reachable d"
  shows "(q \<noteq> [] \<and> strip q \<noteq> [] \<and> int (length (strip q)) \<le> mq
          \<and> ts \<noteq> [] \<and> mn \<le> int (length ts) \<and> int (length ts) \<le> mx
          \<and> (\<forall>t \<in> set ts. strip t \<noteq> [] \<and> int (length (strip t)) \<le> mo)
          \<and> distinct (map strip ts)
          \<and> (\<exists>i<max_attempts. get_poll_by_code d (codes i) = None)
          \<and> \<not> fault
         \<longrightarrow> (\<exists>p d'. create_poll d codes fault now q ts mn mx mq mo = (Inr p, d')))
    \<and> (\<forall>p d'. create_poll d codes fault now q ts mn mx mq mo = (Inr p, d')
         \<longrightarrow> length (poll_options d' p) = length ts
             \<and> map option_text (poll_options d' p) = map strip ts
             \<and> question p = strip q)"
proof (intro conjI allI impI)
  from reachable_invariants [OF assms] have k: "keys_ok d" by simp
  assume "q \<noteq> [] \<and> strip q \<noteq> [] \<and> int (length (strip q)) \<le> mq
          \<and> ts \<noteq> [] \<and> mn \<le> int (length ts) \<and> int (length ts) \<le> mx
          \<and> (\<forall>t \<in> set ts. strip t \<noteq> [] \<and> int (length (strip t)) \<le> mo)
          \<and> distinct (map strip ts)
          \<and> (\<exists>i<max_attempts. get_poll_by_code d (codes i) = None)
          \<and> \<not> fault"
  then show "\<exists>p d'. create_poll d codes fault now q ts mn mx mq mo = (Inr p, d')"
    using create_poll_valid [OF k, of q mq ts mn mx mo codes fault now] by blast
next
  fix p d'
  from reachable_invariants [OF assms] have k: "keys_ok d" by simp
  assume c: "create_poll d codes fault now q ts mn mx mq mo = (Inr p, d')"
  from create_poll_new_options(1,3) [OF k c]
  show "length (poll_options d' p) = length ts" and "question p = strip q"
    and "map option_text (poll_options d' p) = map strip ts"
    by simp_all
qed

theorem create_poll_keeps_options_witness:
  "\<exists>p d'. create_poll empty_db demo_codes False demo_time '' Pick one '' [''A '', '' B''] 2 10 500 200
             = (Inr p, d')
         \<and> length (poll_options d' p) = length [''A '', '' B'']
         \<and> map option_text (poll_options d' p) = [''A'', ''B'']
         \<and> question p = ''Pick one''"
proof -
  note t = create_poll_keeps_options [OF reachable.init, of "'' Pick one ''" 500 "[''A '', '' B'']"
      2 10 200 demo_codes False demo_time]
  have free: "\<exists>i<max_attempts. get_poll_by_code empty_db (demo_codes i) = None"
    by (intro exI [of _ 0]) (simp add: max_attempts_def get_poll_by_code_def)
  have valid: "'' Pick one '' \<noteq> [] \<and> strip '' Pick one '' \<noteq> []
          \<and> int (length (strip '' Pick one '')) \<le> 500
          \<and> [''A '', '' B''] \<noteq> [] \<and> 2 \<le> int (length [''A '', '' B''])
          \<and> int (length [''A '', '' B'']) \<le> 10
          \<and> (\<forall>t \<in> set [''A '', '' B'']. strip t \<noteq> [] \<and> int (length (strip t)) \<le> 200)
          \<and> distinct (map strip [''A '', '' B''])
          \<and> (\<exists>i<max_attempts. get_poll_by_code empty_db (demo_codes i) = None)
          \<and> \<not> False"
    using free by (simp add: strip_def py_isspace_def)
  from t [THEN conjunct1, THEN mp, OF valid] obtain p d' where
    c: "create_poll empty_db demo_codes False demo_time '' Pick one '' [''A '', '' B''] 2 10 500 200
          = (Inr p, d')" by blast
  from t [THEN conjunct2, rule_format, OF c]
  have "length (poll_options d' p) = length [''A '', '' B'']"
    and "map option_text (poll_options d' p) = [''A'', ''B'']"
    and "question p = ''Pick one''"
    by (simp_all add: strip_def py_isspace_def)
  with c show ?thesis by auto
qed

section \<open>Exhausted code generation\<close>

lemma create_poll_exhausted:
  assumes q: "q \<noteq> []" "strip q \<noteq> []" "int (length (strip q)) \<le> mq"
    and n: "ts \<noteq> []" "mn \<le> int (length ts)" "int (length ts) \<le> mx"
    and t: "\<forall>t \<in> set ts. strip t \<noteq> [] \<and> int (length (strip t)) \<le> mo"
    and u: "distinct (map strip ts)"
    and c: "\<forall>i<max_attempts. get_poll_by_code d (codes i) \<noteq> None"
  shows "create_poll d codes fault now q ts mn mx mq mo
           = (Inl (ValidationError ''Unable to generate unique poll code''), d)"
proof -
  have cl: "clean_loop [] ts mo = Inr (map strip ts)"
    using clean_loop_ok [OF t, of "[]"] by simp
  show ?thesis
    using q n u by (simp add: create_poll_unfold cl generate_unique_exhausted [OF c])
qed

lemma create_poll_route_validation:
  assumes a: "is_allowed (limiter st) (clock env) (client_ip (cr_remote_addr req)) = (True, rl')"
    and c: "create_poll (ledger st) (fresh_codes env) (storage_fault env) (utcnow env)
              (strip (form_get (cr_form req) ''question'')) (form_options (cr_form req))
              MIN_OPTIONS MAX_OPTIONS MAX_QUESTION_LENGTH MAX_OPTION_LENGTH
            = (Inl (ValidationError m), d')"
  shows "create_poll_route st env req
           = (Rendered ''create_poll.html'' [(m, ''error'')]
                (Some (strip (form_get (cr_form req) ''question'')))
                (Some (form_options (cr_form req))),
              st\<lparr>limiter := rl', ledger := ledger st\<rparr>)"
proof -
  from c have "d' = ledger st" by (rule create_poll_Inl)
  with a c show ?thesis by (simp add: create_poll_route_def Let_def)
qed

text \<open>
  C9, as stated, does not hold: when all ten codes drawn are in use,
  \<open>_generate_unique_poll_code\<close> raises \<open>ValidationError\<close>, and the handler of
  \<^verbatim>\<open>POST /create\<close> treats it as it treats every validation error: it flashes the
  message and renders the form again with the question and the options submitted. The
  response is not the generic one.
\<close>

theorem code_generation_counterexample:
  "generate_unique_poll_code (ledger demo_state) (fresh_codes demo_env)
     = Inl (ValidationError ''Unable to generate unique poll code'')
   \<and> fst (create_poll_route demo_state demo_env demo_create_request)
     = Rendered ''create_poll.html'' [(''Unable to generate unique poll code'', ''error'')]
         (Some ''Another'') (Some [''X'', ''Y''])
   \<and> fst (create_poll_route demo_state demo_env demo_create_request)
     \<noteq> Rendered ''create_poll.html'' [(''An error occurred. Please try again.'', ''error'')]
         None None"
proof -
  have g: "generate_unique_poll_code ledger_created demo_codes
             = Inl (ValidationError ''Unable to generate unique poll code'')"
    by (rule generate_unique_exhausted) (simp add: demo_codes_def)
  have a: "is_allowed (new_rate_limiter 10 60) 0 ''10.0.0.7''
             = (True, (new_rate_limiter 10 60)\<lparr>requests := (requests (new_rate_limiter 10 60))(''10.0.0.7'' \<mapsto> [0])\<rparr>)"
    by (simp add: is_allowed_def Let_def new_rate_limiter_def recorded_def)
  have f: "strip (form_get (cr_form demo_create_request) ''question'') = ''Another''"
    "form_options (cr_form demo_create_request) = [''X'', ''Y'']"
    by (simp_all add: demo_create_request_def form_get_def form_options_def form_keys_def
          strip_def py_isspace_def)
  have c: "create_poll ledger_created demo_codes False demo_time ''Another'' [''X'', ''Y'']
              MIN_OPTIONS MAX_OPTIONS MAX_QUESTION_LENGTH MAX_OPTION_LENGTH
            = (Inl (ValidationError ''Unable to generate unique poll code''), ledger_created)"
    by (simp add: create_poll_unfold g strip_def py_isspace_def MIN_OPTIONS_def MAX_OPTIONS_def
          MAX_QUESTION_LENGTH_def MAX_OPTION_LENGTH_def)
  have r: "fst (create_poll_route demo_state demo_env demo_create_request)
     = Rendered ''create_poll.html'' [(''Unable to generate unique poll code'', ''error'')]
         (Some ''Another'') (Some [''X'', ''Y''])"
    using create_poll_route_validation [of demo_state demo_env demo_create_request _
        "''Unable to generate unique poll code''" ledger_created] a c f
    by (simp add: demo_state_def demo_env_def client_ip_def demo_create_request_def)
  from g r show ?thesis by (simp add: demo_state_def demo_env_def)
qed

text \<open>
  C9, amended: code generation draws at most ten codes and returns the first one that no
  poll has; when all ten are in use it fails with \<open>ValidationError\<close> "Unable to generate
  unique poll code", \<open>create_poll\<close> fails with that error and leaves the ledger as it
  is, and the handler surfaces it as a validation rejection: the message is flashed and
  the form is rendered again with the submitted question and options.
\<close>

theorem code_generation_bounded:
  "max_attempts = 10
   \<and> (i < max_attempts \<and> get_poll_by_code d (codes i) = None
       \<and> (\<forall>j<i. get_poll_by_code d (codes j) \<noteq> None)
      \<longrightarrow> generate_unique_poll_code d codes = Inr (codes i, Suc i))
   \<and> ((\<forall>i<max_attempts. get_poll_by_code d (codes i) \<noteq> None)
      \<longrightarrow> generate_unique_poll_code d codes
            = Inl (ValidationError ''Unable to generate unique poll code''))
   \<and> (q \<noteq> [] \<and> strip q \<noteq> [] \<and> int (length (strip q)) \<le> mq
       \<and> ts \<noteq> [] \<and> mn \<le> int (length ts) \<and> int (length ts) \<le> mx
       \<and> (\<forall>t \<in> set ts. strip t \<noteq> [] \<and> int (length (strip t)) \<le> mo)
       \<and> distinct (map strip ts)
       \<and> (\<forall>i<max_attempts. get_poll_by_code d (codes i) \<noteq> None)
      \<longrightarrow> create_poll d codes fault now q ts mn mx mq mo
            = (Inl (ValidationError ''Unable to generate unique poll code''), d))
   \<and> (is_allowed (limiter st) (clock env) (client_ip (cr_remote_addr req)) = (True, rl')
       \<and> create_poll (ledger st) (fresh_codes env) (storage_fault env) (utcnow env)
              (strip (form_get (cr_form req) ''question'')) (form_options (cr_form req))
              MIN_OPTIONS MAX_OPTIONS MAX_QUESTION_LENGTH MAX_OPTION_LENGTH
            = (Inl (ValidationError m), d')
      \<longrightarrow> create_poll_route st env req
            = (Rendered ''create_poll.html'' [(m, ''error'')]
                 (Some (strip (form_get (cr_form req) ''question'')))
                 (Some (form_options (cr_form req))),
               st\<lparr>limiter := rl', ledger := ledger st\<rparr>))"
proof (intro conjI impI)
  show "max_attempts = 10" by (simp add: max_attempts_def)
next
  assume "i < max_attempts \<and> get_poll_by_code d (codes i) = None
       \<and> (\<forall>j<i. get_poll_by_code d (codes j) \<noteq> None)"
  then show "generate_unique_poll_code d codes = Inr (codes i, Suc i)"
    using generate_unique_first_free by blast
next
  assume "\<forall>i<max_attempts. get_poll_by_code d (codes i) \<noteq> None"
  then show "generate_unique_poll_code d codes
            = Inl (ValidationError ''Unable to generate unique poll code'')"
    by (rule generate_unique_exhausted)
next
  assume "q \<noteq> [] \<and> strip q \<noteq> [] \<and> int (length (strip q)) \<le> mq
       \<and> ts \<noteq> [] \<and> mn \<le> int (length ts) \<and> int (length ts) \<le> mx
       \<and> (\<forall>t \<in> set ts. strip t \<noteq> [] \<and> int (length (strip t)) \<le> mo)
       \<and> distinct (map strip ts)
       \<and> (\<forall>i<max_attempts. get_poll_by_code d (codes i) \<noteq> None)"
  then show "create_poll d codes fault now q ts mn mx mq mo
            = (Inl (ValidationError ''Unable to generate unique poll code''), d)"
    using create_poll_exhausted [of q mq ts mn mx mo d codes fault now] by blast
next
  assume "is_allowed (limiter st) (clock env) (client_ip (cr_remote_addr req)) = (True, rl')
       \<and> create_poll (ledger st) (fresh_codes env) (storage_fault env) (utcnow env)
              (strip (form_get (cr_form req) ''question'')) (form_options (cr_form req))
              MIN_OPTIONS MAX_OPTIONS MAX_QUESTION_LENGTH MAX_OPTION_LENGTH
            = (Inl (ValidationError m), d')"
  then show "create_poll_route st env req
            = (Rendered ''create_poll.html'' [(m, ''error'')]
                 (Some (strip (form_get (cr_form req) ''question'')))
                 (Some (form_options (cr_form req))),
               st\<lparr>limiter := rl', ledger := ledger st\<rparr>)"
    using create_poll_route_validation by blast
qed

theorem code_generation_bounded_witness:
  "generate_unique_poll_code empty_db demo_codes = Inr (demo_codes 0, Suc 0)
   \<and> generate_unique_poll_code ledger_created demo_codes
       = Inl (ValidationError ''Unable to generate unique poll code'')
   \<and> create_poll ledger_created demo_codes False demo_time ''Another'' [''X'', ''Y''] 2 10 500 200
       = (Inl (ValidationError ''Unable to generate unique poll code''), ledger_created)
   \<and> create_poll_route demo_state demo_env demo_create_request
       = (Rendered ''create_poll.html'' [(''Unable to generate unique poll code'', ''error'')]
            (Some (strip (form_get (cr_form demo_create_request) ''question'')))
            (Some (form_options (cr_form demo_create_request))),
          demo_state\<lparr>limiter := (new_rate_limiter 10 60)\<lparr>requests := [''10.0.0.7'' \<mapsto> [0]]\<rparr>,
                      ledger := ledger demo_state\<rparr>)"
proof -
  have free: "0 < max_attempts \<and> get_poll_by_code empty_db (demo_codes 0) = None
       \<and> (\<forall>j<0. get_poll_by_code empty_db (demo_codes j) \<noteq> None)"
    by (simp add: max_attempts_def get_poll_by_code_def)
  have taken: "\<forall>i<max_attempts. get_poll_by_code ledger_created (demo_codes i) \<noteq> None"
    by (simp add: demo_codes_def)
  have valid: "''Another'' \<noteq> [] \<and> strip ''Another'' \<noteq> [] \<and> int (length (strip ''Another'')) \<le> 500
       \<and> [''X'', ''Y''] \<noteq> [] \<and> 2 \<le> int (length [''X'', ''Y'']) \<and> int (length [''X'', ''Y'']) \<le> 10
       \<and> (\<forall>t \<in> set [''X'', ''Y'']. strip t \<noteq> [] \<and> int (length (strip t)) \<le> 200)
       \<and> distinct (map strip [''X'', ''Y''])
       \<and> (\<forall>i<max_attempts. get_poll_by_code ledger_created (demo_codes i) \<noteq> None)"
    using taken by (simp add: strip_def py_isspace_def)
  have 1: "generate_unique_poll_code empty_db demo_codes = Inr (demo_codes 0, Suc 0)"
    using code_generation_bounded [THEN conjunct2, THEN conjunct1, THEN mp, OF free] .
  have 2: "generate_unique_poll_code ledger_created demo_codes
       = Inl (ValidationError ''Unable to generate unique poll code'')"
    using code_generation_bounded [THEN conjunct2, THEN conjunct2, THEN conjunct1, THEN mp, OF taken] .
  have 3: "create_poll ledger_created demo_codes False demo_time ''Another'' [''X'', ''Y''] 2 10 500 200
       = (Inl (ValidationError ''Unable to generate unique poll code''), ledger_created)"
    using code_generation_bounded [THEN conjunct2, THEN conjunct2, THEN conjunct2, THEN conjunct1,
        THEN mp, OF valid] .
  have a: "is_allowed (limiter demo_state) (clock demo_env) (client_ip (cr_remote_addr demo_create_request))
             = (True, (new_rate_limiter 10 60)\<lparr>requests := [''10.0.0.7'' \<mapsto> [0]]\<rparr>)"
    by (simp add: is_allowed_def Let_def new_rate_limiter_def recorded_def demo_state_def
          demo_env_def demo_create_request_def client_ip_def)
  have f: "strip (form_get (cr_form demo_create_request) ''question'') = ''Another''"
    "form_options (cr_form demo_create_request) = [''X'', ''Y'']"
    by (simp_all add: demo_create_request_def form_get_def form_options_def form_keys_def
          strip_def py_isspace_def)
  have c: "create_poll (ledger demo_state) (fresh_codes demo_env) (storage_fault demo_env)
              (utcnow demo_env) (strip (form_get (cr_form demo_create_request) ''question''))
              (form_options (cr_form demo_create_request))
              MIN_OPTIONS MAX_OPTIONS MAX_QUESTION_LENGTH MAX_OPTION_LENGTH
            = (Inl (ValidationError ''Unable to generate unique poll code''), ledger_created)"
    using 3 by (simp add: f demo_state_def demo_env_def MIN_OPTIONS_def MAX_OPTIONS_def
          MAX_QUESTION_LENGTH_def MAX_OPTION_LENGTH_def)
  have 4: "create_poll_route demo_state demo_env demo_create_request
       = (Rendered ''create_poll.html'' [(''Unable to generate unique poll code'', ''error'')]
            (Some (strip (form_get (cr_form demo_create_request) ''question'')))
            (Some (form_options (cr_form demo_create_request))),
          demo_state\<lparr>limiter := (new_rate_limiter 10 60)\<lparr>requests := [''10.0.0.7'' \<mapsto> [0]]\<rparr>,
                      ledger := ledger demo_state\<rparr>)"
    using code_generation_bounded [THEN conjunct2, THEN conjunct2, THEN conjunct2, THEN conjunct2,
        THEN mp, OF conjI [OF a c]] .
  from 1 2 3 4 show ?thesis by (intro conjI)
qed

section \<open>Results\<close>

lemma option_data_get [simp]:
  "dict_get (option_data fl tv opt) ''id'' = Some (JInt (o_id opt))"
  "dict_get (option_data fl tv opt) ''option_text'' = Some (JStr (option_text opt))"
  "dict_get (option_data fl tv opt) ''vote_count'' = Some (JInt (vote_count opt))"
  "dict_get (option_data fl tv opt) ''percentage''
     = Some (if tv > 0
             then JFloat (fround fl (fmul fl (truediv fl (vote_count opt) tv) 100) 1)
             else JInt 0)"
  "dict_keys (option_data fl tv opt) = [''id'', ''option_text'', ''vote_count'', ''percentage'']"
  by (simp_all add: option_data_def percentage_def)

lemma get_results_found:
  assumes "get_poll_by_code d code = Some p"
  shows "get_results fl d code
     = Inr (JDict [(''poll_code'', JStr code), (''question'', JStr (question p)),
                   (''total_votes'', JInt (sum_list (map vote_count (poll_options d p)))),
                   (''options'', JList (map (option_data fl (sum_list (map vote_count (poll_options d p))))
                                          (poll_options d p))),
                   (''created_at'', JStr (created_at p))])"
  using assms by (simp add: get_results_def Let_def)

text \<open>
  C5: for an existing poll, \<open>get_results\<close> reports as \<open>total_votes\<close> the sum of the
  vote counts of the poll's options, and for each option, in order, its id, its count and
  the percentage \<open>round(count / total_votes * 100, 1)\<close> when \<open>total_votes > 0\<close>, and
  the integer 0 otherwise. Each percentage depends on the option's own count and on the
  total only. When the total is 0 no float operation takes part: the result is the same
  whatever the float operations are. Division, multiplication and rounding are the float
  operations of the runtime, which the model takes as parameters.
\<close>

theorem get_results_percentages:
  "get_poll_by_code d code = Some p \<Longrightarrow>
     \<exists>r os. get_results fl d code = Inr r
       \<and> dict_get r ''total_votes'' = Some (JInt (sum_list (map vote_count (poll_options d p))))
       \<and> dict_get r ''options'' = Some (JList os)
       \<and> map (\<lambda>e. (dict_get e ''id'', dict_get e ''vote_count'', dict_get e ''percentage'')) os
           = map (\<lambda>opt. (Some (JInt (o_id opt)), Some (JInt (vote_count opt)),
                          Some (if sum_list (map vote_count (poll_options d p)) > 0
                                then JFloat (fround fl (fmul fl
                                       (truediv fl (vote_count opt)
                                          (sum_list (map vote_count (poll_options d p)))) 100) 1)
                                else JInt 0)))
                 (poll_options d p)
       \<and> (sum_list (map vote_count (poll_options d p)) = 0
            \<longrightarrow> get_results fl' d code = get_results fl d code)"
proof -
  assume p: "get_poll_by_code d code = Some p"
  let ?total = "sum_list (map vote_count (poll_options d p))"
  let ?os = "map (option_data fl ?total) (poll_options d p)"
  let ?r = "JDict [(''poll_code'', JStr code), (''question'', JStr (question p)),
                   (''total_votes'', JInt ?total), (''options'', JList ?os),
                   (''created_at'', JStr (created_at p))]"
  have r: "get_results fl d code = Inr ?r" by (rule get_results_found [OF p])
  have z: "option_data fl' ?total = option_data fl ?total" if "?total = 0"
    using that by (auto simp: option_data_def percentage_def)
  have same: "?total = 0 \<longrightarrow> get_results fl' d code = get_results fl d code"
    using z by (simp add: get_results_found [OF p])
  have 1: "dict_get ?r ''total_votes'' = Some (JInt ?total)" by simp
  have 2: "dict_get ?r ''options'' = Some (JList ?os)" by simp
  have 3: "map (\<lambda>e. (dict_get e ''id'', dict_get e ''vote_count'', dict_get e ''percentage'')) ?os
           = map (\<lambda>opt. (Some (JInt (o_id opt)), Some (JInt (vote_count opt)),
                          Some (if ?total > 0
                                then JFloat (fround fl (fmul fl
                                       (truediv fl (vote_count opt) ?total) 100) 1)
                                else JInt 0)))
                 (poll_options d p)"
    by (simp add: comp_def)
  from r 1 2 3 same show ?thesis by blast
qed

lemma decimal_third:
  "fround decimal_ops (fmul decimal_ops (truediv decimal_ops 1 3) 100) 1 = 333 / 10"
  by (simp add: decimal_ops_def round_def)

lemma thirds_lookup: "get_poll_by_code ledger_thirds ''1A2B3C4D'' = Some demo_poll"
  by (simp add: get_poll_by_code_def ledger_thirds_def demo_poll_def)

lemma thirds_options: "poll_options ledger_thirds demo_poll = options ledger_thirds"
  by (simp add: poll_options_def ledger_thirds_def demo_poll_def)

lemma created_options: "poll_options ledger_created demo_poll = options ledger_created"
  by (simp add: poll_options_def ledger_created_def demo_poll_def)

theorem get_results_percentages_witness:
  "(\<exists>r os. get_results decimal_ops ledger_thirds ''1A2B3C4D'' = Inr r
      \<and> dict_get r ''total_votes'' = Some (JInt 3)
      \<and> dict_get r ''options'' = Some (JList os)
      \<and> map (\<lambda>e. dict_get e ''percentage'') os
          = [Some (JFloat (333 / 10)), Some (JFloat (333 / 10)), Some (JFloat (333 / 10))])
   \<and> (\<exists>r os. get_results decimal_ops ledger_created ''1A2B3C4D'' = Inr r
      \<and> dict_get r ''total_votes'' = Some (JInt 0)
      \<and> dict_get r ''options'' = Some (JList os)
      \<and> map (\<lambda>e. dict_get e ''percentage'') os = [Some (JInt 0), Some (JInt 0)])"
proof (intro conjI)
  from get_results_percentages [OF thirds_lookup, of decimal_ops decimal_ops]
  obtain r os where r: "get_results decimal_ops ledger_thirds ''1A2B3C4D'' = Inr r"
    and t: "dict_get r ''total_votes''
              = Some (JInt (sum_list (map vote_count (poll_options ledger_thirds demo_poll))))"
    and os: "dict_get r ''options'' = Some (JList os)"
    and m: "map (\<lambda>e. (dict_get e ''id'', dict_get e ''vote_count'', dict_get e ''percentage'')) os
           = map (\<lambda>opt. (Some (JInt (o_id opt)), Some (JInt (vote_count opt)),
                Some (if sum_list (map vote_count (poll_options ledger_thirds demo_poll)) > 0
                      then JFloat (fround decimal_ops (fmul decimal_ops
                             (truediv decimal_ops (vote_count opt)
                                (sum_list (map vote_count (poll_options ledger_thirds demo_poll)))) 100) 1)
                      else JInt 0)))
                 (poll_options ledger_thirds demo_poll)"
    by blast
  have "map (\<lambda>e. dict_get e ''percentage'') os
          = map (\<lambda>x. snd (snd x))
              (map (\<lambda>e. (dict_get e ''id'', dict_get e ''vote_count'', dict_get e ''percentage'')) os)"
    by (simp add: comp_def)
  also have "\<dots> = [Some (JFloat (333 / 10)), Some (JFloat (333 / 10)), Some (JFloat (333 / 10))]"
    unfolding m thirds_options by (simp add: ledger_thirds_def decimal_third)
  finally have p: "map (\<lambda>e. dict_get e ''percentage'') os
          = [Some (JFloat (333 / 10)), Some (JFloat (333 / 10)), Some (JFloat (333 / 10))]" .
  from t have t': "dict_get r ''total_votes'' = Some (JInt 3)"
    unfolding thirds_options by (simp add: ledger_thirds_def)
  from r t' os p show "\<exists>r os. get_results decimal_ops ledger_thirds ''1A2B3C4D'' = Inr r
      \<and> dict_get r ''total_votes'' = Some (JInt 3)
      \<and> dict_get r ''options'' = Some (JList os)
      \<and> map (\<lambda>e. dict_get e ''percentage'') os
          = [Some (JFloat (333 / 10)), Some (JFloat (333 / 10)), Some (JFloat (333 / 10))]"
    by auto
next
  from get_results_percentages [OF demo_poll_lookup(1), of decimal_ops decimal_ops]
  obtain r os where r: "get_results decimal_ops ledger_created ''1A2B3C4D'' = Inr r"
    and t: "dict_get r ''total_votes''
              = Some (JInt (sum_list (map vote_count (poll_options ledger_created demo_poll))))"
    and os: "dict_get r ''options'' = Some (JList os)"
    and m: "map (\<lambda>e. (dict_get e ''id'', dict_get e ''vote_count'', dict_get e ''percentage'')) os
           = map (\<lambda>opt. (Some (JInt (o_id opt)), Some (JInt (vote_count opt)),
                Some (if sum_list (map vote_count (poll_options ledger_created demo_poll)) > 0
                      then JFloat (fround decimal_ops (fmul decimal_ops
                             (truediv decimal_ops (vote_count opt)
                                (sum_list (map vote_count (poll_options ledger_created demo_poll)))) 100) 1)
                      else JInt 0)))
                 (poll_options ledger_created demo_poll)"
    by blast
  have "map (\<lambda>e. dict_get e ''percentage'') os
          = map (\<lambda>x. snd (snd x))
              (map (\<lambda>e. (dict_get e ''id'', dict_get e ''vote_count'', dict_get e ''percentage'')) os)"
    by (simp add: comp_def)
  also have "\<dots> = [Some (JInt 0), Some (JInt 0)]"
    unfolding m created_options by (simp add: ledger_created_def)
  finally have p: "map (\<lambda>e. dict_get e ''percentage'') os = [Some (JInt 0), Some (JInt 0)]" .
  from t have t': "dict_get r ''total_votes'' = Some (JInt 0)"
    unfolding created_options by (simp add: ledger_created_def)
  from r t' os p show "\<exists>r os. get_results decimal_ops ledger_created ''1A2B3C4D'' = Inr r
      \<and> dict_get r ''total_votes'' = Some (JInt 0)
      \<and> dict_get r ''options'' = Some (JList os)
      \<and> map (\<lambda>e. dict_get e ''percentage'') os = [Some (JInt 0), Some (JInt 0)]"
    by auto
qed

lemma error_response_status: "status (error_response e) \<noteq> 200"
  by (cases e) (simp_all add: error_response_def)

lemma submit_vote_route_ok:
  assumes "submit_vote_route fl st env req = (resp, events, st')" and "status resp = 200"
  shows "\<exists>r. get_results fl (ledger st') (upper (vr_poll_code req)) = Inr r
           \<and> body resp = JDict [(''success'', JBool True), (''results'', r)]
           \<and> events = [(''vote_update'', r, upper (vr_poll_code req))]"
  using assms
  by (auto simp: submit_vote_route_def Let_def error_response_status
           split: option.splits if_splits prod.splits sum.splits)

text \<open>
  C6: for an existing poll, the results have exactly the keys \<open>poll_code\<close>,
  \<open>question\<close>, \<open>total_votes\<close>, \<open>created_at\<close> and \<open>options\<close>; each entry of
  \<open>options\<close> has exactly the keys \<open>id\<close>, \<open>option_text\<close>, \<open>vote_count\<close> and
  \<open>percentage\<close>; the entries are the poll's options in ascending order of id, which on a
  reachable ledger is the order in which the rows were created. When the vote handler
  answers with status 200, the results in its response body and the payload of the one
  \<open>vote_update\<close> event it emits to the poll's room are the same value, the results of
  the poll in the new ledger.
\<close>

theorem results_snapshot_shape:
  "(get_poll_by_code d code = Some p \<longrightarrow>
      (\<exists>r os. get_results fl d code = Inr r
         \<and> set (dict_keys r) = {''poll_code'', ''question'', ''total_votes'', ''created_at'', ''options''}
         \<and> distinct (dict_keys r)
         \<and> dict_get r ''options'' = Some (JList os)
         \<and> (\<forall>e \<in> set os. set (dict_keys e) = {''id'', ''option_text'', ''vote_count'', ''percentage''}
                           \<and> distinct (dict_keys e))
         \<and> map (\<lambda>e. (dict_get e ''id'', dict_get e ''option_text'', dict_get e ''vote_count'')) os
             = map (\<lambda>opt. (Some (JInt (o_id opt)), Some (JStr (option_text opt)),
                            Some (JInt (vote_count opt))))
                   (poll_options d p)
         \<and> sorted (map o_id (poll_options d p))
         \<and> (reachable d \<longrightarrow>
              poll_options d p = filter (\<lambda>opt. o_poll_id opt = p_id p) (options d))))
   \<and> (submit_vote_route fl st env req = (resp, events, st') \<and> status resp = 200 \<longrightarrow>
        (\<exists>r. get_results fl (ledger st') (upper (vr_poll_code req)) = Inr r
           \<and> body resp = JDict [(''success'', JBool True), (''results'', r)]
           \<and> events = [(''vote_update'', r, upper (vr_poll_code req))]))"
proof (intro conjI impI)
  assume p: "get_poll_by_code d code = Some p"
  let ?total = "sum_list (map vote_count (poll_options d p))"
  let ?os = "map (option_data fl ?total) (poll_options d p)"
  let ?r = "JDict [(''poll_code'', JStr code), (''question'', JStr (question p)),
                   (''total_votes'', JInt ?total), (''options'', JList ?os),
                   (''created_at'', JStr (created_at p))]"
  have r: "get_results fl d code = Inr ?r" by (rule get_results_found [OF p])
  have 1: "set (dict_keys ?r) = {''poll_code'', ''question'', ''total_votes'', ''created_at'', ''options''}"
    by auto
  have 2: "distinct (dict_keys ?r)" by simp
  have 3: "dict_get ?r ''options'' = Some (JList ?os)" by simp
  have 4: "\<forall>e \<in> set ?os. set (dict_keys e) = {''id'', ''option_text'', ''vote_count'', ''percentage''}
                           \<and> distinct (dict_keys e)"
    by auto
  have 5: "map (\<lambda>e. (dict_get e ''id'', dict_get e ''option_text'', dict_get e ''vote_count'')) ?os
             = map (\<lambda>opt. (Some (JInt (o_id opt)), Some (JStr (option_text opt)),
                            Some (JInt (vote_count opt))))
                   (poll_options d p)"
    by (simp add: comp_def)
  have 6: "sorted (map o_id (poll_options d p))" by (simp add: poll_options_def)
  have 7: "reachable d \<longrightarrow> poll_options d p = filter (\<lambda>opt. o_poll_id opt = p_id p) (options d)"
    using reachable_invariants poll_options_table by blast
  from r 1 2 3 4 5 6 7 show "\<exists>r os. get_results fl d code = Inr r
         \<and> set (dict_keys r) = {''poll_code'', ''question'', ''total_votes'', ''created_at'', ''options''}
         \<and> distinct (dict_keys r)
         \<and> dict_get r ''options'' = Some (JList os)
         \<and> (\<forall>e \<in> set os. set (dict_keys e) = {''id'', ''option_text'', ''vote_count'', ''percentage''}
                           \<and> distinct (dict_keys e))
         \<and> map (\<lambda>e. (dict_get e ''id'', dict_get e ''option_text'', dict_get e ''vote_count'')) os
             = map (\<lambda>opt. (Some (JInt (o_id opt)), Some (JStr (option_text opt)),
                            Some (JInt (vote_count opt))))
                   (poll_options d p)
         \<and> sorted (map o_id (poll_options d p))
         \<and> (reachable d \<longrightarrow>
              poll_options d p = filter (\<lambda>opt. o_poll_id opt = p_id p) (options d))"
    by blast
next
  assume "submit_vote_route fl st env req = (resp, events, st') \<and> status resp = 200"
  then show "\<exists>r. get_results fl (ledger st') (upper (vr_poll_code req)) = Inr r
           \<and> body resp = JDict [(''success'', JBool True), (''results'', r)]
           \<and> events = [(''vote_update'', r, upper (vr_poll_code req))]"
    using submit_vote_route_ok by blast
qed

lemma demo_upper: "upper ''1a2b3c4d'' = ''1A2B3C4D''"
  by (simp add: upper_def upper_char_def)

lemma demo_route_status:
  "status (fst (submit_vote_route decimal_ops demo_state demo_env demo_vote_request)) = 200"
proof -
  have a: "is_allowed (new_rate_limiter 10 60) 0 ''10.0.0.1''
             = (True, (new_rate_limiter 10 60)\<lparr>requests := [''10.0.0.1'' \<mapsto> [0]]\<rparr>)"
    by (simp add: is_allowed_def Let_def new_rate_limiter_def recorded_def)
  show ?thesis
    by (simp add: submit_vote_route_def demo_state_def demo_env_def demo_vote_request_def
          client_ip_def a demo_upper demo_vote_full get_results_found [OF demo_poll_lookup(2)])
qed

theorem results_snapshot_shape_witness:
  "(\<exists>r os. get_results decimal_ops ledger_voted ''1A2B3C4D'' = Inr r
       \<and> set (dict_keys r) = {''poll_code'', ''question'', ''total_votes'', ''created_at'', ''options''}
       \<and> distinct (dict_keys r)
       \<and> dict_get r ''options'' = Some (JList os)
       \<and> map (\<lambda>e. (dict_get e ''id'', dict_get e ''option_text'', dict_get e ''vote_count'')) os
           = [(Some (JInt 1), Some (JStr ''A''), Some (JInt 1)),
              (Some (JInt 2), Some (JStr ''B''), Some (JInt 0))])
   \<and> (\<exists>r. get_results decimal_ops
              (ledger (snd (snd (submit_vote_route decimal_ops demo_state demo_env demo_vote_request))))
              ''1A2B3C4D'' = Inr r
       \<and> body (fst (submit_vote_route decimal_ops demo_state demo_env demo_vote_request))
           = JDict [(''success'', JBool True), (''results'', r)]
       \<and> fst (snd (submit_vote_route decimal_ops demo_state demo_env demo_vote_request))
           = [(''vote_update'', r, ''1A2B3C4D'')])"
proof (intro conjI)
  have po: "poll_options ledger_voted demo_poll = options ledger_voted"
    by (simp add: poll_options_def ledger_voted_def demo_poll_def)
  show "\<exists>r os. get_results decimal_ops ledger_voted ''1A2B3C4D'' = Inr r
       \<and> set (dict_keys r) = {''poll_code'', ''question'', ''total_votes'', ''created_at'', ''options''}
       \<and> distinct (dict_keys r)
       \<and> dict_get r ''options'' = Some (JList os)
       \<and> map (\<lambda>e. (dict_get e ''id'', dict_get e ''option_text'', dict_get e ''vote_count'')) os
           = [(Some (JInt 1), Some (JStr ''A''), Some (JInt 1)),
              (Some (JInt 2), Some (JStr ''B''), Some (JInt 0))]"
    using results_snapshot_shape [THEN conjunct1, THEN mp, OF demo_poll_lookup(2), of decimal_ops]
    apply (elim exE conjE)
    subgoal for r os
      apply (rule exI [of _ r], rule exI [of _ os])
      apply (simp only: po)
      apply (simp add: ledger_voted_def)
      done
    done
next
  let ?out = "submit_vote_route decimal_ops demo_state demo_env demo_vote_request"
  have h: "?out = (fst ?out, fst (snd ?out), snd (snd ?out)) \<and> status (fst ?out) = 200"
    using demo_route_status by simp
  have u: "upper (vr_poll_code demo_vote_request) = ''1A2B3C4D''"
    by (simp add: demo_vote_request_def demo_upper)
  show "\<exists>r. get_results decimal_ops (ledger (snd (snd ?out))) ''1A2B3C4D'' = Inr r
       \<and> body (fst ?out) = JDict [(''success'', JBool True), (''results'', r)]
       \<and> fst (snd ?out) = [(''vote_update'', r, ''1A2B3C4D'')]"
    using results_snapshot_shape [THEN conjunct2, THEN mp, OF h] unfolding u .
qed

section \<open>The rate limiter\<close>

lemma recorded_new [simp]: "recorded (new_rate_limiter m w) ip = []"
  by (simp add: recorded_def new_rate_limiter_def)

lemma recorded_update [simp]:
  "recorded (rl\<lparr>requests := (requests rl)(ip \<mapsto> ts)\<rparr>) ip' = (if ip' = ip then ts else recorded rl ip')"
  by (simp add: recorded_def)

lemma is_allowed_unfold:
  "is_allowed rl now ip =
     (let kept = filter (\<lambda>t. \<not> t \<le> now - real_of_int (window_seconds rl)) (recorded rl ip)
      in if max_requests rl \<le> int (length kept)
         then (False, rl\<lparr>requests := (requests rl)(ip \<mapsto> kept)\<rparr>)
         else (True, rl\<lparr>requests := (requests rl)(ip \<mapsto> kept @ [now])\<rparr>))"
  by (simp add: is_allowed_def Let_def not_le)

text \<open>
  Four calls by one client inside one window of 60 seconds and a fifth one at least 60
  seconds after the first, on a fresh limiter with \<open>max_requests = 3\<close>.
\<close>

lemma three_then_reject_then_admit:
  assumes "t1 \<le> t2" "t2 \<le> t3" "t3 \<le> t4" "t4 < t1 + 60" "t1 + 60 \<le> t5"
  shows "fst (is_allowed_seq (new_rate_limiter 3 60)
                [(t1, ip), (t2, ip), (t3, ip), (t4, ip), (t5, ip)])
         = [True, True, True, False, True]"
proof -
  let ?r0 = "new_rate_limiter 3 60"
  obtain r1 where r1: "is_allowed ?r0 t1 ip = (True, r1)" "recorded r1 ip = [t1]"
      "max_requests r1 = 3" "window_seconds r1 = 60"
    by (simp add: is_allowed_def Let_def new_rate_limiter_def recorded_def)
  obtain r2 where r2: "is_allowed r1 t2 ip = (True, r2)" "recorded r2 ip = [t1, t2]"
      "max_requests r2 = 3" "window_seconds r2 = 60"
    using r1(2-4) assms by (simp add: is_allowed_def Let_def)
  obtain r3 where r3: "is_allowed r2 t3 ip = (True, r3)" "recorded r3 ip = [t1, t2, t3]"
      "max_requests r3 = 3" "window_seconds r3 = 60"
    using r2(2-4) assms by (simp add: is_allowed_def Let_def)
  obtain r4 where r4: "is_allowed r3 t4 ip = (False, r4)" "recorded r4 ip = [t1, t2, t3]"
      "max_requests r4 = 3" "window_seconds r4 = 60"
    using r3(2-4) assms by (simp add: is_allowed_def Let_def)
  have "fst (is_allowed r4 t5 ip)"
    using r4(2-4) assms by (simp add: is_allowed_def Let_def)
  then obtain r5 where r5: "is_allowed r4 t5 ip = (True, r5)"
    by (cases "is_allowed r4 t5 ip") auto
  show ?thesis
    by (simp add: r1(1) r2(1) r3(1) r4(1) r5)
qed

text \<open>
  C4, as the specification words it, does not hold: the code keeps a timestamp only if it is
  later than \<open>now - window_seconds\<close>, so a request recorded exactly \<open>window_seconds\<close>
  ago is dropped, while "older than" keeps it. With \<open>max_requests = 1\<close> and a window of
  60 seconds, a call at time 0 and a call at time 60 are both admitted by the code; the
  rule in the specification's words rejects the second.
\<close>

theorem is_allowed_boundary_counterexample:
  "fst (is_allowed_seq (new_rate_limiter 1 60) [(0, ''10.0.0.1''), (60, ''10.0.0.1'')])
     = [True, True]
   \<and> fst (admit_spec_seq (new_rate_limiter 1 60) [(0, ''10.0.0.1''), (60, ''10.0.0.1'')])
     = [True, False]"
  by (simp add: is_allowed_def admit_spec_def Let_def new_rate_limiter_def recorded_def)

text \<open>
  C4, amended: for every limiter state, client and clock reading, \<open>is_allowed\<close> drops the
  client's recorded timestamps that are not later than \<open>now - window_seconds\<close> (older than
  or exactly that old), then returns false and records nothing if at least \<open>max_requests\<close>
  timestamps remain, and otherwise appends \<open>now\<close> and returns true; the records of other
  clients are untouched. With \<open>max_requests = 3\<close> and a window of 60 seconds, three calls
  inside the window succeed, a fourth inside it fails, and a call made once 60 seconds
  have passed since the first succeeds again.
\<close>

theorem is_allowed_sliding_window:
  "is_allowed rl now ip =
     (let kept = filter (\<lambda>t. \<not> t \<le> now - real_of_int (window_seconds rl)) (recorded rl ip)
      in if max_requests rl \<le> int (length kept)
         then (False, rl\<lparr>requests := (requests rl)(ip \<mapsto> kept)\<rparr>)
         else (True, rl\<lparr>requests := (requests rl)(ip \<mapsto> kept @ [now])\<rparr>))
   \<and> (t1 \<le> t2 \<and> t2 \<le> t3 \<and> t3 \<le> t4 \<and> t4 < t1 + 60 \<and> t1 + 60 \<le> t5 \<longrightarrow>
        fst (is_allowed_seq (new_rate_limiter 3 60)
               [(t1, ip), (t2, ip), (t3, ip), (t4, ip), (t5, ip)])
        = [True, True, True, False, True])"
  using is_allowed_unfold three_then_reject_then_admit by blast

theorem is_allowed_sliding_window_witness:
  "(0::real) \<le> 10 \<and> (10::real) \<le> 20 \<and> (20::real) \<le> 30 \<and> (30::real) < 0 + 60 \<and> (0::real) + 60 \<le> 60
   \<and> fst (is_allowed_seq (new_rate_limiter 3 60)
            [(0, ''10.0.0.1''), (10, ''10.0.0.1''), (20, ''10.0.0.1''), (30, ''10.0.0.1''),
             (60, ''10.0.0.1'')])
     = [True, True, True, False, True]"
  using is_allowed_sliding_window [of "new_rate_limiter 3 60" 0 "''10.0.0.1''" 0 10 20 30 60,
                                   THEN conjunct2]
  by simp

end
